theory Spec2Isabelle
  imports Complex_Main "HOL-Library.Sublist"
begin

section \<open>Python values used by the backend\<close>

text \<open>
  Python \<open>str\<close> values are modelled as \<open>string\<close>; the model covers ASCII text, where
  \<open>len\<close> is the list length.  \<open>truthy\<close> is Python's truth value of an
  \<open>Optional[str]\<close>: \<open>None\<close> and the empty string are both false.
\<close>

definition truthy :: "string option \<Rightarrow> bool" where
  "truthy v = (case v of None \<Rightarrow> False | Some s \<Rightarrow> s \<noteq> [])"

definition apostrophe :: char where
  "apostrophe = CHR 0x27"

definition newline :: char where
  "newline = CHR 0x0A"

text \<open>\<open>sep.join(xs)\<close>\<close>

fun join :: "string \<Rightarrow> string list \<Rightarrow> string" where
  "join sep [] = []"
| "join sep [x] = x"
| "join sep (x # y # ys) = x @ sep @ join sep (y # ys)"

text \<open>\<open>str(n)\<close> for an integer: decimal digits, with a leading minus sign when negative.\<close>

definition digit_char :: "nat \<Rightarrow> char" where
  "digit_char d = char_of (48 + d)"

function str_nat :: "nat \<Rightarrow> string" where
  "str_nat n = (if n < 10 then [digit_char n] else str_nat (n div 10) @ [digit_char (n mod 10)])"
  by pat_completeness auto
termination
  by (relation "measure id") auto

declare str_nat.simps [simp del]

definition str_int :: "int \<Rightarrow> string" where
  "str_int i = (if i < 0 then CHR ''-'' # str_nat (nat (- i)) else str_nat (nat i))"

text \<open>
  Metadata values stored in the similarity index are flat scalars; the repository stores
  strings and integers.  A metadata dict is an association list; \<open>meta_get\<close> is
  \<open>dict.get(key, default)\<close> and \<open>meta_lookup\<close> is \<open>dict.get(key)\<close>.
\<close>

datatype meta_value = MStr string | MInt int

type_synonym metadata = "(string \<times> meta_value) list"

definition meta_lookup :: "metadata \<Rightarrow> string \<Rightarrow> meta_value option" where
  "meta_lookup meta key = map_of meta key"

definition meta_get :: "metadata \<Rightarrow> string \<Rightarrow> meta_value \<Rightarrow> meta_value" where
  "meta_get meta key dflt = (case map_of meta key of Some v \<Rightarrow> v | None \<Rightarrow> dflt)"

text \<open>How an f-string renders a metadata value, and its truth value.\<close>

fun py_str :: "meta_value \<Rightarrow> string" where
  "py_str (MStr s) = s"
| "py_str (MInt i) = str_int i"

fun py_bool :: "meta_value \<Rightarrow> bool" where
  "py_bool (MStr s) = (s \<noteq> [])"
| "py_bool (MInt i) = (i \<noteq> 0)"

section \<open>Evidence store facade (vector\_store.py)\<close>

text \<open>
  A ChromaDB \<open>where\<close> filter.  \<open>Eq k v\<close> is \<open>{k: v}\<close>, \<open>Range k lo hi\<close> is
  \<open>{k: {"$gte": lo, "$lte": hi}}\<close> and \<open>AndAll fs\<close> is \<open>{"$and": fs}\<close>.
\<close>

datatype where_clause = Eq string string | Range string int int | AndAll "where_clause list"

text \<open>\<open>VectorStore._build_filter\<close>\<close>

definition build_filter ::
  "string option \<Rightarrow> string option \<Rightarrow> (int \<times> int) option \<Rightarrow> where_clause option" where
  "build_filter topic paper_type year_range =
    (let filters = [];
         filters = (case topic of
                      Some t \<Rightarrow> if t \<noteq> [] then filters @ [Eq ''topic'' t] else filters
                    | None \<Rightarrow> filters);
         filters = (case paper_type of
                      Some p \<Rightarrow> if p \<noteq> [] then filters @ [Eq ''paper_type'' p] else filters
                    | None \<Rightarrow> filters);
         filters = (case year_range of
                      Some (min_year, max_year) \<Rightarrow> filters @ [Range ''year'' min_year max_year]
                    | None \<Rightarrow> filters)
     in if filters = [] then None
        else if length filters = 1 then Some (filters ! 0)
        else Some (AndAll filters))"

text \<open>\<open>SearchResults\<close> and the raw result of a ChromaDB query.\<close>

record search_results =
  documents :: "string list"
  metadata :: "metadata list"
  distances :: "real list"
  error :: "string option"

record chroma_results =
  cr_documents :: "string list list option"
  cr_metadatas :: "metadata list list option"
  cr_distances :: "real list list option"

text \<open>
  \<open>x[0] if x else []\<close>: a missing or empty outer list gives the empty list.
\<close>

definition first_or_empty :: "'a list list option \<Rightarrow> 'a list" where
  "first_or_empty x = (case x of None \<Rightarrow> [] | Some [] \<Rightarrow> [] | Some (y # ys) \<Rightarrow> y)"

definition from_chroma :: "chroma_results \<Rightarrow> search_results" where
  "from_chroma cr =
     \<lparr>documents = first_or_empty (cr_documents cr),
      metadata = first_or_empty (cr_metadatas cr),
      distances = first_or_empty (cr_distances cr),
      error = None\<rparr>"

definition empty_results :: "string \<Rightarrow> search_results" where
  "empty_results error_msg = \<lparr>documents = [], metadata = [], distances = [], error = Some error_msg\<rparr>"

definition is_empty :: "search_results \<Rightarrow> bool" where
  "is_empty r = (length (documents r) = 0)"

text \<open>
  The similarity-search backend is opaque: \<open>paper_content.query(query_texts, n_results, where)\<close>
  either returns raw results or raises an exception whose text is \<open>str(e)\<close> (\<open>Inl\<close>).
\<close>

type_synonym backend = "string \<Rightarrow> int \<Rightarrow> where_clause option \<Rightarrow> string + chroma_results"

text \<open>\<open>VectorStore.search\<close>\<close>

definition search ::
  "backend \<Rightarrow> int \<Rightarrow> string \<Rightarrow> string option \<Rightarrow> string option \<Rightarrow> (int \<times> int) option
     \<Rightarrow> int option \<Rightarrow> search_results" where
  "search query_fn max_results query topic paper_type year_range limit =
    (let filter_dict = build_filter topic paper_type year_range;
         search_limit = (case limit of Some l \<Rightarrow> l | None \<Rightarrow> max_results)
     in case query_fn query search_limit filter_dict of
          Inr results \<Rightarrow> from_chroma results
        | Inl e \<Rightarrow> empty_results (''Search error: '' @ e))"

section \<open>Search capability (search\_tools.py)\<close>

record source =
  src_text :: string
  src_url :: "string option"

record search_tool =
  last_sources :: "source list"

text \<open>
  The tool reaches its store through two methods: \<open>store.search(query, topic, paper_type,
  year_range)\<close> and \<open>store.get_paper_url(paper_title)\<close>.
\<close>

type_synonym store_search =
  "string \<Rightarrow> string option \<Rightarrow> string option \<Rightarrow> (int \<times> int) option \<Rightarrow> search_results"

type_synonym store_url = "meta_value \<Rightarrow> string option"

definition vs_search :: "backend \<Rightarrow> int \<Rightarrow> store_search" where
  "vs_search query_fn max_results query topic paper_type year_range =
     search query_fn max_results query topic paper_type year_range None"

text \<open>Lines 76--81 of \<open>execute\<close>: the year range handed to the store.\<close>

definition build_year_range :: "int option \<Rightarrow> int option \<Rightarrow> (int \<times> int) option" where
  "build_year_range min_year max_year =
    (if min_year \<noteq> None \<or> max_year \<noteq> None then
       (let min_y = (case min_year of Some y \<Rightarrow> y | None \<Rightarrow> 1900);
            max_y = (case max_year of Some y \<Rightarrow> y | None \<Rightarrow> 2100)
        in Some (min_y, max_y))
     else None)"

text \<open>Lines 97--104 of \<open>execute\<close>: the message for an empty result.\<close>

definition no_results_message ::
  "string option \<Rightarrow> string option \<Rightarrow> (int \<times> int) option \<Rightarrow> string" where
  "no_results_message topic paper_type year_range =
    (let filter_info = [];
         filter_info = (case topic of
             Some t \<Rightarrow> if t \<noteq> [] then filter_info @ '' in topic '' @ [apostrophe] @ t @ [apostrophe]
                       else filter_info
           | None \<Rightarrow> filter_info);
         filter_info = (case paper_type of
             Some p \<Rightarrow> if p \<noteq> [] then filter_info @ '' of type '' @ [apostrophe] @ p @ [apostrophe]
                       else filter_info
           | None \<Rightarrow> filter_info);
         filter_info = (case year_range of
             Some (lo, hi) \<Rightarrow> filter_info @ '' from years '' @ str_int lo @ ''-'' @ str_int hi
           | None \<Rightarrow> filter_info)
     in ''No relevant medical literature found'' @ filter_info @ ''.'')"

text \<open>
  \<open>_format_results\<close>.  The \<open>sources\<close> dict keeps insertion order, so it is an association
  list that only grows at the end.
\<close>

definition make_header :: "meta_value \<Rightarrow> meta_value \<Rightarrow> string" where
  "make_header paper_title section =
    (let header = ''['' @ py_str paper_title;
         header = (if py_bool section then header @ '' | '' @ py_str section else header)
     in header @ '']'')"

definition make_source :: "store_url \<Rightarrow> metadata \<Rightarrow> source" where
  "make_source get_url meta =
    (let paper_title = meta_get meta ''paper_title'' (MStr ''Unknown Paper'');
         journal = meta_get meta ''journal'' (MStr ''Unknown Journal'');
         year = meta_get meta ''year'' (MStr ''Unknown Year'');
         source_text = py_str paper_title @ '' - '' @ py_str year @ '' - '' @ py_str journal
     in \<lparr>src_text = source_text, src_url = get_url paper_title\<rparr>)"

fun format_loop ::
  "store_url \<Rightarrow> (string \<times> metadata) list \<Rightarrow> string list \<Rightarrow> (meta_value \<times> source) list
     \<Rightarrow> string list \<times> (meta_value \<times> source) list" where
  "format_loop get_url [] formatted sources = (formatted, sources)"
| "format_loop get_url ((doc, meta) # rest) formatted sources =
    (let paper_title = meta_get meta ''paper_title'' (MStr ''Unknown Paper'');
         section = meta_get meta ''section_title'' (MStr []);
         header = make_header paper_title section;
         sources = (if paper_title \<notin> set (map fst sources)
                    then sources @ [(paper_title, make_source get_url meta)]
                    else sources)
     in format_loop get_url rest (formatted @ [header @ [newline] @ doc]) sources)"

definition format_results :: "store_url \<Rightarrow> search_tool \<Rightarrow> search_results \<Rightarrow> string \<times> search_tool" where
  "format_results get_url self results =
    (case format_loop get_url (zip (documents results) (metadata results)) [] [] of
       (formatted, sources) \<Rightarrow>
         (join [newline, newline] formatted, self\<lparr>last_sources := map snd sources\<rparr>))"

text \<open>\<open>MedicalLiteratureSearchTool.execute\<close>: the returned text and the tool afterwards.\<close>

definition execute ::
  "store_search \<Rightarrow> store_url \<Rightarrow> search_tool \<Rightarrow> string \<Rightarrow> string option \<Rightarrow> string option
     \<Rightarrow> int option \<Rightarrow> int option \<Rightarrow> string \<times> search_tool" where
  "execute srch get_url self query topic paper_type min_year max_year =
    (let year_range = build_year_range min_year max_year;
         results = srch query topic paper_type year_range
     in if truthy (error results) then (case error results of Some e \<Rightarrow> (e, self) | None \<Rightarrow> ([], self))
        else if is_empty results then (no_results_message topic paper_type year_range, self)
        else format_results get_url self results)"

section \<open>Chunker (document\_processor.py)\<close>

text \<open>
  Character classes of Python's \<open>re\<close> and \<open>str.strip\<close>, over ASCII: \<open>\s\<close> and
  \<open>isspace\<close> (tab to carriage return, the four separators 0x1C--0x1F, space),
  \<open>[A-Z]\<close>, \<open>[a-z]\<close> and \<open>\w\<close>.
\<close>

definition is_space :: "char \<Rightarrow> bool" where
  "is_space c = (let n = (of_char c :: nat) in (9 \<le> n \<and> n \<le> 13) \<or> (28 \<le> n \<and> n \<le> 32))"

definition is_upper :: "char \<Rightarrow> bool" where
  "is_upper c = (let n = (of_char c :: nat) in 65 \<le> n \<and> n \<le> 90)"

definition is_lower :: "char \<Rightarrow> bool" where
  "is_lower c = (let n = (of_char c :: nat) in 97 \<le> n \<and> n \<le> 122)"

definition is_digit :: "char \<Rightarrow> bool" where
  "is_digit c = (let n = (of_char c :: nat) in 48 \<le> n \<and> n \<le> 57)"

definition is_word :: "char \<Rightarrow> bool" where
  "is_word c = (is_upper c \<or> is_lower c \<or> is_digit c \<or> c = CHR ''_'')"

text \<open>\<open>s.strip()\<close>\<close>

definition strip :: "string \<Rightarrow> string" where
  "strip s = rev (dropWhile is_space (rev (dropWhile is_space s)))"

text \<open>\<open>re.sub(r'\s+', ' ', s)\<close>: every maximal run of whitespace becomes one space.\<close>

function sub_ws :: "string \<Rightarrow> string" where
  "sub_ws [] = []"
| "sub_ws (c # cs) =
     (if is_space c then CHR '' '' # sub_ws (dropWhile is_space cs) else c # sub_ws cs)"
  by pat_completeness auto
termination
  by (relation "measure length") (auto simp: length_dropWhile_le less_Suc_eq_le)

text \<open>
  The sentence boundary pattern
  \<^verbatim>\<open>(?<!\w\.\w.)(?<![A-Z][a-z]\.)(?<=\.|\!|\?)\s+(?=[A-Z])\<close>.
  The three look-behinds read the text before the position, kept reversed (nearest
  character first); the look-ahead reads what follows the run of whitespace.
\<close>

definition abbrev_before :: "string \<Rightarrow> bool" where
  "abbrev_before prev =
     (case prev of a # b # c # d # _ \<Rightarrow> is_word d \<and> c = CHR ''.'' \<and> is_word b \<and> a \<noteq> newline
      | _ \<Rightarrow> False)"

definition title_before :: "string \<Rightarrow> bool" where
  "title_before prev =
     (case prev of a # b # c # _ \<Rightarrow> is_upper c \<and> is_lower b \<and> a = CHR ''.'' | _ \<Rightarrow> False)"

definition end_before :: "string \<Rightarrow> bool" where
  "end_before prev =
     (case prev of a # _ \<Rightarrow> a = CHR ''.'' \<or> a = CHR ''!'' \<or> a = CHR ''?'' | [] \<Rightarrow> False)"

definition upper_next :: "string \<Rightarrow> bool" where
  "upper_next rest = (case rest of c # _ \<Rightarrow> is_upper c | [] \<Rightarrow> False)"

text \<open>
  \<open>sentence_endings.split(text)\<close>: scan from the left; at a match, close the current piece
  and resume after the matched whitespace.  \<open>prev\<close> is the text consumed so far, reversed;
  \<open>cur\<close> is the current piece, reversed.
\<close>

function split_scan :: "string \<Rightarrow> string \<Rightarrow> string \<Rightarrow> string list" where
  "split_scan prev cur [] = [rev cur]"
| "split_scan prev cur (c # cs) =
     (if \<not> abbrev_before prev \<and> \<not> title_before prev \<and> end_before prev \<and> is_space c
          \<and> upper_next (dropWhile is_space cs)
      then rev cur # split_scan (rev (takeWhile is_space cs) @ c # prev) [] (dropWhile is_space cs)
      else split_scan (c # prev) (c # cur) cs)"
  by pat_completeness auto
termination
  by (relation "measure (\<lambda>(prev, cur, rest). length rest)")
     (auto simp: length_dropWhile_le less_Suc_eq_le)

definition split_sentences :: "string \<Rightarrow> string list" where
  "split_sentences txt = split_scan [] [] txt"

text \<open>Lines 30--40 of \<open>chunk_text\<close>: the cleaned sentence list.\<close>

definition sentences_of :: "string \<Rightarrow> string list" where
  "sentences_of txt =
     (let txt = sub_ws (strip txt);
          sentences = split_sentences txt
      in filter (\<lambda>s. s \<noteq> []) (map strip sentences))"


text \<open>
  Lines 50--62: the inner \<open>for j\<close> loop over the sentences from \<open>i\<close> on, with
  \<open>space_size = 1 if current_chunk else 0\<close>.
\<close>

definition space_size :: "string list \<Rightarrow> int" where
  "space_size current_chunk = (if current_chunk \<noteq> [] then 1 else 0)"

fun build_chunk :: "int \<Rightarrow> string list \<Rightarrow> string list \<Rightarrow> int \<Rightarrow> string list" where
  "build_chunk chunk_size [] current_chunk current_size = current_chunk"
| "build_chunk chunk_size (sentence # rest) current_chunk current_size =
     (let total_addition = int (length sentence) + space_size current_chunk
      in if current_size + total_addition > chunk_size \<and> current_chunk \<noteq> [] then current_chunk
         else build_chunk chunk_size rest (current_chunk @ [sentence])
                (current_size + total_addition))"

text \<open>
  Lines 75--81: the backward \<open>for k\<close> loop; the counter \<open>Suc k\<close> stands for the index
  \<open>k\<close> about to be visited.
\<close>

definition sentence_len :: "string list \<Rightarrow> nat \<Rightarrow> int" where
  "sentence_len current_chunk k =
     int (length (current_chunk ! k)) + (if k < length current_chunk - 1 then 1 else 0)"

fun overlap_scan :: "int \<Rightarrow> string list \<Rightarrow> nat \<Rightarrow> int \<Rightarrow> nat \<Rightarrow> nat" where
  "overlap_scan chunk_overlap current_chunk 0 overlap_size overlap_sentences = overlap_sentences"
| "overlap_scan chunk_overlap current_chunk (Suc k) overlap_size overlap_sentences =
     (if overlap_size + sentence_len current_chunk k \<le> chunk_overlap
      then overlap_scan chunk_overlap current_chunk k
             (overlap_size + sentence_len current_chunk k) (overlap_sentences + 1)
      else overlap_sentences)"

text \<open>Lines 69--88: the next start index after a chunk was emitted.\<close>

definition advance :: "int \<Rightarrow> nat \<Rightarrow> string list \<Rightarrow> nat" where
  "advance chunk_overlap i current_chunk =
     (if chunk_overlap > 0 then
        (let overlap_sentences =
               overlap_scan chunk_overlap current_chunk (length current_chunk) 0 0;
             next_start = i + length current_chunk - overlap_sentences
         in max next_start (i + 1))
      else i + length current_chunk)"

text \<open>One pass of the \<open>while\<close> loop: the new \<open>i\<close> and the new \<open>chunks\<close>.\<close>

definition loop_body :: "int \<Rightarrow> int \<Rightarrow> string list \<Rightarrow> nat \<Rightarrow> string list \<Rightarrow> nat \<times> string list" where
  "loop_body chunk_size chunk_overlap sentences i chunks =
     (let current_chunk = build_chunk chunk_size (drop i sentences) [] 0
      in if current_chunk \<noteq> []
         then (advance chunk_overlap i current_chunk, chunks @ [join '' '' current_chunk])
         else (i + 1, chunks))"

text \<open>The \<open>while i < len(sentences)\<close> loop.\<close>

function chunk_loop :: "int \<Rightarrow> int \<Rightarrow> string list \<Rightarrow> nat \<Rightarrow> string list \<Rightarrow> string list" where
  "chunk_loop chunk_size chunk_overlap sentences i chunks =
     (if i < length sentences
      then (case loop_body chunk_size chunk_overlap sentences i chunks of
              (i', chunks') \<Rightarrow> chunk_loop chunk_size chunk_overlap sentences i' chunks')
      else chunks)"
  by pat_completeness auto
termination
  by (relation "measure (\<lambda>(chunk_size, chunk_overlap, sentences, i, chunks). length sentences - i)")
     (auto simp: loop_body_def advance_def Let_def simp flip: length_greater_0_conv
           split: if_splits)

text \<open>The same loop, recording the value of \<open>i\<close> at the start of every pass.\<close>

function loop_starts :: "int \<Rightarrow> int \<Rightarrow> string list \<Rightarrow> nat \<Rightarrow> string list \<Rightarrow> nat list" where
  "loop_starts chunk_size chunk_overlap sentences i chunks =
     (if i < length sentences
      then i # (case loop_body chunk_size chunk_overlap sentences i chunks of
              (i', chunks') \<Rightarrow> loop_starts chunk_size chunk_overlap sentences i' chunks')
      else [])"
  by pat_completeness auto
termination
  by (relation "measure (\<lambda>(chunk_size, chunk_overlap, sentences, i, chunks). length sentences - i)")
     (auto simp: loop_body_def advance_def Let_def simp flip: length_greater_0_conv
           split: if_splits)

text \<open>\<open>DocumentProcessor.chunk_text\<close>, with \<open>chunk_size\<close> and \<open>chunk_overlap\<close> of the processor.\<close>

definition chunk_text :: "int \<Rightarrow> int \<Rightarrow> string \<Rightarrow> string list" where
  "chunk_text chunk_size chunk_overlap txt = chunk_loop chunk_size chunk_overlap (sentences_of txt) 0 []"

section \<open>Document parser (document\_processor.py)\<close>

text \<open>
  An \<open>xml.etree.ElementTree\<close> element: tag, attributes, text before the first child,
  children in document order, and the text that follows the element inside its parent.
\<close>

datatype element =
  Element (tag: string) (attrib: "(string \<times> string) list") (etext: "string option")
          (children: "element list") (etail: "string option")

text \<open>\<open>s or ""\<close> for an optional string.\<close>

definition or_empty :: "string option \<Rightarrow> string" where
  "or_empty s = (case s of Some x \<Rightarrow> x | None \<Rightarrow> [])"

text \<open>\<open>_extract_text_from_element\<close> for an element that is present.\<close>

fun extract_text_from_element :: "element \<Rightarrow> string" where
  "extract_text_from_element (Element t a x cs tl0) =
     strip (foldl (\<lambda>acc child. acc @ extract_text_from_element child @ or_empty (etail child))
              (or_empty x) cs)"

text \<open>
  Path lookups.  \<open>e.findall('.//name')\<close> is every element below \<open>e\<close> with that tag, in
  document order; \<open>find\<close> is its first result; \<open>e.find('name')\<close> looks among the children
  of \<open>e\<close> only; \<open>[@key="val"]\<close> keeps the elements with that attribute value.
\<close>

fun descendants :: "element \<Rightarrow> element list" where
  "descendants (Element t a x cs tl0) = concat (map (\<lambda>c. c # descendants c) cs)"

definition findall_desc :: "string \<Rightarrow> element \<Rightarrow> element list" where
  "findall_desc name e = filter (\<lambda>d. tag d = name) (descendants e)"

definition first_of :: "'a list \<Rightarrow> 'a option" where
  "first_of xs = (case xs of [] \<Rightarrow> None | x # _ \<Rightarrow> Some x)"

definition find_desc :: "string \<Rightarrow> element \<Rightarrow> element option" where
  "find_desc name e = first_of (findall_desc name e)"

definition find_child :: "string \<Rightarrow> element \<Rightarrow> element option" where
  "find_child name e = first_of (filter (\<lambda>d. tag d = name) (children e))"

definition find_desc_attr :: "string \<Rightarrow> string \<Rightarrow> string \<Rightarrow> element \<Rightarrow> element option" where
  "find_desc_attr name key val e =
     first_of (filter (\<lambda>d. map_of (attrib d) key = Some val) (findall_desc name e))"


definition children_named :: "string \<Rightarrow> element \<Rightarrow> element list" where
  "children_named name e = filter (\<lambda>d. tag d = name) (children e)"

definition findall_desc_attr :: "string \<Rightarrow> string \<Rightarrow> string \<Rightarrow> element \<Rightarrow> element list" where
  "findall_desc_attr name key val e =
     filter (\<lambda>d. map_of (attrib d) key = Some val) (findall_desc name e)"

text \<open>
  What \<open>ET.parse\<close> produced for a file: a parse error, or the root element together with
  the outcome of the test of line 144, whether the serialised tree contains the publisher's
  restriction notice.
\<close>

datatype parse_result = ParseError | Parsed element bool

text \<open>\<open>_check_if_abstract_only\<close>\<close>

definition check_if_abstract_only :: "bool \<Rightarrow> element \<Rightarrow> bool" where
  "check_if_abstract_only has_marker root_el =
     (if has_marker then True
      else (case find_desc ''body'' root_el of
              None \<Rightarrow> True
            | Some body \<Rightarrow> if length (children body) = 0 then True else False))"

text \<open>\<open>elem.text.strip() if elem is not None and elem.text else None\<close>\<close>

definition stripped_text :: "element option \<Rightarrow> string option" where
  "stripped_text e =
     (case e of
        None \<Rightarrow> None
      | Some el \<Rightarrow> (case etext el of
                     None \<Rightarrow> None
                   | Some t \<Rightarrow> if t \<noteq> [] then Some (strip t) else None))"

text \<open>\<open>_parse_authors\<close> and \<open>_parse_keywords\<close>\<close>

definition parse_authors :: "element \<Rightarrow> string list" where
  "parse_authors root_el =
     (case find_desc ''contrib-group'' root_el of
        None \<Rightarrow> []
      | Some contrib_group \<Rightarrow>
          foldl (\<lambda>authors contrib.
                   (case find_desc ''surname'' contrib of
                      None \<Rightarrow> authors
                    | Some surname_elem \<Rightarrow>
                        (let surname = or_empty (etext surname_elem);
                             given_names = (case find_desc ''given-names'' contrib of
                                              None \<Rightarrow> []
                                            | Some g \<Rightarrow> or_empty (etext g))
                         in if given_names \<noteq> [] then authors @ [given_names @ '' '' @ surname]
                            else authors @ [surname])))
                [] (findall_desc_attr ''contrib'' ''contrib-type'' ''author'' contrib_group))"

definition parse_keywords :: "element \<Rightarrow> string list" where
  "parse_keywords root_el =
     foldl (\<lambda>keywords kwd. (case etext kwd of
                                Some t \<Rightarrow> if t \<noteq> [] then keywords @ [strip t] else keywords
                              | None \<Rightarrow> keywords))
           [] (findall_desc ''kwd'' root_el)"

text \<open>\<open>_extract_abstract\<close>\<close>

definition extract_abstract :: "element \<Rightarrow> string option" where
  "extract_abstract root_el =
     (case find_desc ''abstract'' root_el of
        Some abstract \<Rightarrow>
          (let abstract_text = extract_text_from_element abstract;
               abstract_text = strip (sub_ws abstract_text)
           in if abstract_text \<noteq> [] then Some abstract_text else None)
      | None \<Rightarrow> None)"

text \<open>
  \<open>_extract_body_sections\<close>: the title of a section (line 209), its non-empty paragraph
  texts (lines 212--216), and the loop over the sections of the body.
\<close>

definition section_title_of :: "element \<Rightarrow> string" where
  "section_title_of sec =
     (case stripped_text (find_child ''title'' sec) of
        Some t \<Rightarrow> t
      | None \<Rightarrow> ''Untitled Section'')"

definition section_parts :: "element \<Rightarrow> string list" where
  "section_parts sec =
     foldl (\<lambda>content_parts p.
              (let p_text = extract_text_from_element p
               in if p_text \<noteq> [] then content_parts @ [p_text] else content_parts))
           [] (findall_desc ''p'' sec)"

definition extract_body_sections :: "element \<Rightarrow> (string \<times> string) list" where
  "extract_body_sections root_el =
     (case find_desc ''body'' root_el of
        None \<Rightarrow> []
      | Some body \<Rightarrow>
          foldl (\<lambda>sections sec.
                   (let title = section_title_of sec;
                        content_parts = section_parts sec
                    in if content_parts \<noteq> []
                       then (let content = join '' '' content_parts;
                                 content = strip (sub_ws content)
                             in sections @ [(title, content)])
                       else sections))
                [] (findall_desc ''sec'' body))"

text \<open>\<open>Paper\<close> and \<open>PaperChunk\<close> (models.py)\<close>

record paper =
  p_title :: string
  p_pmcid :: "string option"
  p_doi :: "string option"
  p_journal :: "string option"
  p_year :: "int option"
  p_authors :: "string list"
  p_paper_type :: "string option"
  p_topic :: "string option"
  p_keywords :: "string list"

record paper_chunk =
  c_content :: string
  c_paper_title :: string
  c_pmcid :: "string option"
  c_doi :: "string option"
  c_journal :: "string option"
  c_year :: "int option"
  c_topic :: "string option"
  c_section_title :: "string option"
  c_chunk_index :: int

text \<open>The \<open>PaperChunk\<close> built at lines 313--324 and 334--345.\<close>

definition make_chunk :: "paper \<Rightarrow> string \<Rightarrow> string \<Rightarrow> int \<Rightarrow> paper_chunk" where
  "make_chunk paper section_title chunk chunk_counter =
     (let chunk_with_context =
            ''Paper: '' @ p_title paper @ '' | Section: '' @ section_title @ [newline] @ chunk
      in \<lparr>c_content = chunk_with_context, c_paper_title = p_title paper,
          c_pmcid = p_pmcid paper, c_doi = p_doi paper, c_journal = p_journal paper,
          c_year = p_year paper, c_topic = p_topic paper,
          c_section_title = Some section_title, c_chunk_index = chunk_counter\<rparr>)"

text \<open>
  Lines 248--304 of \<open>process_medical_paper\<close>.  \<open>py_int\<close> is Python's \<open>int\<close> on a string
  (\<open>None\<close> for a \<open>ValueError\<close>); \<open>topic_mapping\<close> is the loaded title-to-topic mapping.
\<close>

definition extract_paper ::
  "(string \<Rightarrow> int option) \<Rightarrow> (string \<times> string) list \<Rightarrow> string \<Rightarrow> element \<Rightarrow> paper" where
  "extract_paper py_int topic_mapping base_name root_el =
     (let title = (case stripped_text (find_desc ''article-title'' root_el) of
                     Some t \<Rightarrow> t | None \<Rightarrow> base_name);
          pmcid = stripped_text (find_desc_attr ''article-id'' ''pub-id-type'' ''pmcid'' root_el);
          doi = stripped_text (find_desc_attr ''article-id'' ''pub-id-type'' ''doi'' root_el);
          journal = stripped_text (find_desc ''journal-title'' root_el);
          year = (case stripped_text
                         (first_of (concat (map (children_named ''year'')
                                                (findall_desc ''pub-date'' root_el)))) of
                    Some y \<Rightarrow> py_int y | None \<Rightarrow> None);
          paper_type = stripped_text
                         (first_of (concat (map (children_named ''subject'')
                            (findall_desc_attr ''subj-group'' ''subj-group-type'' ''heading'' root_el))));
          authors = parse_authors root_el;
          keywords = parse_keywords root_el;
          topic = map_of topic_mapping title
      in \<lparr>p_title = title, p_pmcid = pmcid, p_doi = doi, p_journal = journal, p_year = year,
          p_authors = authors, p_paper_type = paper_type, p_topic = topic,
          p_keywords = keywords\<rparr>)"

text \<open>Lines 306--347: the chunk list, built with a running \<open>chunk_counter\<close>.\<close>

definition add_section_chunks ::
  "int \<Rightarrow> int \<Rightarrow> paper \<Rightarrow> paper_chunk list \<times> int \<Rightarrow> string \<times> string \<Rightarrow> paper_chunk list \<times> int" where
  "add_section_chunks chunk_size chunk_overlap paper st section =
     (case section of (section_title, section_content) \<Rightarrow>
        foldl (\<lambda>(paper_chunks, chunk_counter) chunk.
                 (paper_chunks @ [make_chunk paper section_title chunk chunk_counter],
                  chunk_counter + 1))
              st (chunk_text chunk_size chunk_overlap section_content))"

definition build_paper_chunks :: "int \<Rightarrow> int \<Rightarrow> paper \<Rightarrow> element \<Rightarrow> paper_chunk list" where
  "build_paper_chunks chunk_size chunk_overlap paper root_el =
     (let paper_chunks = [];
          chunk_counter = 0;
          abstract = extract_abstract root_el;
          (paper_chunks, chunk_counter) =
             (if truthy abstract
              then (paper_chunks @ [make_chunk paper ''Abstract'' (or_empty abstract) chunk_counter],
                    chunk_counter + 1)
              else (paper_chunks, chunk_counter));
          sections = extract_body_sections root_el;
          (paper_chunks, chunk_counter) =
             foldl (add_section_chunks chunk_size chunk_overlap paper)
                   (paper_chunks, chunk_counter) sections
      in paper_chunks)"

text \<open>\<open>process_medical_paper\<close>: \<open>None\<close> when the paper is skipped.\<close>

definition process_medical_paper ::
  "int \<Rightarrow> int \<Rightarrow> (string \<Rightarrow> int option) \<Rightarrow> (string \<times> string) list \<Rightarrow> string \<Rightarrow> parse_result
     \<Rightarrow> (paper \<times> paper_chunk list) option" where
  "process_medical_paper chunk_size chunk_overlap py_int topic_mapping base_name parsed =
     (case parsed of
        ParseError \<Rightarrow> None
      | Parsed root_el has_marker \<Rightarrow>
          if check_if_abstract_only has_marker root_el then None
          else (let paper = extract_paper py_int topic_mapping base_name root_el
                in Some (paper, build_paper_chunks chunk_size chunk_overlap paper root_el)))"

section \<open>Store ingestion (vector\_store.py, rag\_system.py)\<close>

text \<open>
  The two ChromaDB collections of the store.  A collection is the list of its entries
  (id, document, metadata) in insertion order, and \<open>add\<close> puts an entry at the end; the
  ingestion below adds a catalog entry only under an id that the catalog does not hold yet.
  A backend that fails is outside this model.
\<close>

record entry =
  e_id :: string
  e_document :: string
  e_metadata :: metadata

record vector_store =
  paper_catalog :: "entry list"
  paper_content :: "entry list"

text \<open>A metadata item that is left out when its value is \<open>None\<close>.\<close>

definition opt_str :: "string \<Rightarrow> string option \<Rightarrow> metadata" where
  "opt_str key v = (case v of Some s \<Rightarrow> [(key, MStr s)] | None \<Rightarrow> [])"

definition opt_int :: "string \<Rightarrow> int option \<Rightarrow> metadata" where
  "opt_int key v = (case v of Some i \<Rightarrow> [(key, MInt i)] | None \<Rightarrow> [])"

text \<open>
  \<open>add_paper_metadata\<close>; \<open>dumps\<close> is \<open>json.dumps\<close> on a list of strings, taken as a
  parameter.
\<close>

definition add_paper_metadata :: "(string list \<Rightarrow> string) \<Rightarrow> vector_store \<Rightarrow> paper \<Rightarrow> vector_store" where
  "add_paper_metadata dumps self paper =
     (let paper_text = p_title paper @ '' '' @ join '' '' (p_keywords paper);
          metadata = [(''title'', MStr (p_title paper))]
                     @ opt_str ''topic'' (p_topic paper)
                     @ opt_str ''journal'' (p_journal paper)
                     @ opt_int ''year'' (p_year paper)
                     @ opt_str ''paper_type'' (p_paper_type paper)
                     @ opt_str ''pmcid'' (p_pmcid paper)
                     @ opt_str ''doi'' (p_doi paper)
                     @ [(''authors_json'', MStr (dumps (p_authors paper))),
                        (''keywords_json'', MStr (dumps (p_keywords paper))),
                        (''author_count'', MInt (int (length (p_authors paper))))]
      in self\<lparr>paper_catalog := paper_catalog self
            @ [\<lparr>e_id = p_title paper, e_document = paper_text, e_metadata = metadata\<rparr>]\<rparr>)"

text \<open>\<open>add_paper_content\<close>, with the ids of line 176.\<close>

definition replace_char :: "char \<Rightarrow> char \<Rightarrow> string \<Rightarrow> string" where
  "replace_char old new s = map (\<lambda>c. if c = old then new else c) s"

definition chunk_entry :: "paper_chunk \<Rightarrow> entry" where
  "chunk_entry chunk =
     \<lparr>e_id = replace_char CHR ''/'' CHR ''_'' (replace_char CHR '' '' CHR ''_'' (c_paper_title chunk))
             @ ''_'' @ str_int (c_chunk_index chunk),
      e_document = c_content chunk,
      e_metadata = [(''paper_title'', MStr (c_paper_title chunk))]
                   @ opt_str ''topic'' (c_topic chunk)
                   @ opt_str ''section_title'' (c_section_title chunk)
                   @ [(''chunk_index'', MInt (c_chunk_index chunk))]
                   @ opt_str ''pmcid'' (c_pmcid chunk)
                   @ opt_str ''doi'' (c_doi chunk)
                   @ opt_str ''journal'' (c_journal chunk)
                   @ opt_int ''year'' (c_year chunk)\<rparr>"

definition add_paper_content :: "vector_store \<Rightarrow> paper_chunk list \<Rightarrow> vector_store" where
  "add_paper_content self chunks =
     (if chunks = [] then self
      else self\<lparr>paper_content := paper_content self @ map chunk_entry chunks\<rparr>)"

text \<open>\<open>clear_all_data\<close>, \<open>get_existing_paper_titles\<close>, \<open>get_paper_count\<close>\<close>

definition clear_all_data :: "vector_store \<Rightarrow> vector_store" where
  "clear_all_data self = self\<lparr>paper_catalog := [], paper_content := []\<rparr>"

definition get_existing_paper_titles :: "vector_store \<Rightarrow> string list" where
  "get_existing_paper_titles self = map e_id (paper_catalog self)"

definition get_paper_count :: "vector_store \<Rightarrow> nat" where
  "get_paper_count self = length (map e_id (paper_catalog self))"

text \<open>
  \<open>get_paper_url\<close>: the first catalog entry under the title, PMC before DOI.  A title that
  is not a string is not a valid id; the lookup fails and the method returns \<open>None\<close>.
\<close>

definition get_paper_url :: "vector_store \<Rightarrow> meta_value \<Rightarrow> string option" where
  "get_paper_url self paper_title =
     (case paper_title of
        MInt i \<Rightarrow> None
      | MStr t \<Rightarrow>
          (case filter (\<lambda>e. e_id e = t) (paper_catalog self) of
             [] \<Rightarrow> None
           | e # _ \<Rightarrow>
               (case meta_lookup (e_metadata e) ''pmcid'' of
                  Some pmcid \<Rightarrow>
                    if py_bool pmcid
                    then Some (''https://www.ncbi.nlm.nih.gov/pmc/articles/'' @ py_str pmcid @ ''/'')
                    else (case meta_lookup (e_metadata e) ''doi'' of
                            Some doi \<Rightarrow> if py_bool doi then Some (''https://doi.org/'' @ py_str doi)
                                         else None
                          | None \<Rightarrow> None)
                | None \<Rightarrow>
                    (case meta_lookup (e_metadata e) ''doi'' of
                       Some doi \<Rightarrow> if py_bool doi then Some (''https://doi.org/'' @ py_str doi)
                                    else None
                     | None \<Rightarrow> None))))"

text \<open>
  Folder ingestion (rag\_system.py).  A folder is what \<open>os.listdir\<close> returns, in that
  order: for each name whether it is a file and what parsing it gives.  The document
  processor is its \<open>process_medical_paper\<close> method.
\<close>

record folder_file =
  f_name :: string
  f_is_file :: bool
  f_parsed :: parse_result

definition lower_char :: "char \<Rightarrow> char" where
  "lower_char c = (if is_upper c then char_of (of_char c + (32 :: nat)) else c)"

definition is_xml_file :: "folder_file \<Rightarrow> bool" where
  "is_xml_file f = (f_is_file f \<and> suffix ''.xml'' (map lower_char (f_name f)))"

type_synonym processor = "string \<Rightarrow> parse_result \<Rightarrow> (paper \<times> paper_chunk list) option"

type_synonym ingest_state = "vector_store \<times> string set \<times> int \<times> int"

text \<open>
  One pass of the loop of lines 93--117 over the store, the set of known titles and the
  two counters.
\<close>

definition ingest_file ::
  "processor \<Rightarrow> (string list \<Rightarrow> string) \<Rightarrow> ingest_state \<Rightarrow> folder_file \<Rightarrow> ingest_state" where
  "ingest_file proc dumps st f =
     (case st of (store, existing_paper_titles, total_papers, total_chunks) \<Rightarrow>
        if is_xml_file f then
          (case proc (f_name f) (f_parsed f) of
             None \<Rightarrow> st
           | Some (paper, paper_chunks) \<Rightarrow>
               if p_title paper \<notin> existing_paper_titles
               then (add_paper_content (add_paper_metadata dumps store paper) paper_chunks,
                     insert (p_title paper) existing_paper_titles,
                     total_papers + 1,
                     total_chunks + int (length paper_chunks))
               else st)
        else st)"

text \<open>
  \<open>add_papers_from_folder\<close>; \<open>folder\<close> is \<open>None\<close> when the path does not exist.  The result is
  the store afterwards with the returned pair of counters.
\<close>

definition add_papers_from_folder ::
  "processor \<Rightarrow> (string list \<Rightarrow> string) \<Rightarrow> vector_store \<Rightarrow> folder_file list option \<Rightarrow> bool
     \<Rightarrow> vector_store \<times> int \<times> int" where
  "add_papers_from_folder proc dumps store folder clear_existing =
     (let store = (if clear_existing then clear_all_data store else store)
      in case folder of
           None \<Rightarrow> (store, 0, 0)
         | Some files \<Rightarrow>
             (let existing_paper_titles = set (get_existing_paper_titles store)
              in case foldl (ingest_file proc dumps) (store, existing_paper_titles, 0, 0) files of
                   (store, existing_paper_titles, total_papers, total_chunks) \<Rightarrow>
                     (store, total_papers, total_chunks)))"

section \<open>Answer orchestrator (ai\_generator.py)\<close>
























section \<open>Specification-side notions\<close>

text \<open>
  The predicates of the criteria that count as provided, in input order (topic, paper type,
  year range).  A string criterion counts when it is present and not empty; a year range
  counts whenever it is present.
\<close>

definition provided_predicates ::
  "string option \<Rightarrow> string option \<Rightarrow> (int \<times> int) option \<Rightarrow> where_clause list" where
  "provided_predicates topic paper_type year_range =
     (case topic of Some t \<Rightarrow> if t = [] then [] else [Eq ''topic'' t] | None \<Rightarrow> [])
     @ (case paper_type of Some p \<Rightarrow> if p = [] then [] else [Eq ''paper_type'' p] | None \<Rightarrow> [])
     @ (case year_range of Some (lo, hi) \<Rightarrow> [Range ''year'' lo hi] | None \<Rightarrow> [])"

text \<open>The document title an evidence item is attributed to.\<close>

definition title_of :: "metadata \<Rightarrow> meta_value" where
  "title_of meta = meta_get meta ''paper_title'' (MStr ''Unknown Paper'')"

text \<open>
  The evidence items that are the first of their document title, in their order of
  occurrence.
\<close>

fun first_per_title :: "(string \<times> metadata) list \<Rightarrow> (string \<times> metadata) list" where
  "first_per_title [] = []"
| "first_per_title (it # its) =
     it # first_per_title (filter (\<lambda>jt. title_of (snd jt) \<noteq> title_of (snd it)) its)"

text \<open>A result set of three evidence items, two of them from the same document.\<close>

definition demo_meta :: "string \<Rightarrow> int \<Rightarrow> string \<Rightarrow> metadata" where
  "demo_meta t y s = [(''paper_title'', MStr t), (''year'', MInt y), (''journal'', MStr ''BMJ''),
                      (''section_title'', MStr s)]"

definition demo_hits :: search_results where
  "demo_hits = \<lparr>documents = [''d1'', ''d2'', ''d3''],
     metadata = [demo_meta ''Statins'' 2021 ''Abstract'', demo_meta ''Aspirin'' 2019 ''Results'',
                 demo_meta ''Statins'' 2021 ''Methods''],
     distances = [0, 1, 2], error = None\<rparr>"

text \<open>Two backends: one that always fails, one that never finds anything.\<close>

definition failing_backend :: backend where
  "failing_backend q n w = Inl ''index offline''"

definition empty_backend :: backend where
  "empty_backend q n w = Inr \<lparr>cr_documents = Some [[]], cr_metadatas = Some [[]], cr_distances = Some [[]]\<rparr>"

definition old_sources :: search_tool where
  "old_sources = \<lparr>last_sources = [\<lparr>src_text = ''Statins - 2021 - BMJ'', src_url = None\<rparr>]\<rparr>"

text \<open>A text of six sentences, one of them longer than 30 characters.\<close>

definition demo_text :: string where
  "demo_text = ''Aspirin helps. It is cheap. Side effects are rare. Ask a doctor e.g. Dr. Who. This single sentence is far longer than the limit allows. End.''"

text \<open>
  The pieces of a document in the order the specification gives.  The abstract is the
  first \<open>abstract\<close> element below the root, in document order; when its whitespace-normalised
  text is not blank it is one piece labelled "Abstract", otherwise there is no abstract
  piece.  Then, for every body section in document order, come the chunker's pieces of its
  text under the section's label.
\<close>

definition normalised_text :: "element \<Rightarrow> string" where
  "normalised_text e = strip (sub_ws (extract_text_from_element e))"

definition abstract_pieces :: "element \<Rightarrow> (string \<times> string) list" where
  "abstract_pieces root_el =
     (case findall_desc ''abstract'' root_el of
        [] \<Rightarrow> []
      | first_abstract # others \<Rightarrow>
          if normalised_text first_abstract = [] then []
          else [(''Abstract'', normalised_text first_abstract)])"

definition body_pieces :: "int \<Rightarrow> int \<Rightarrow> element \<Rightarrow> (string \<times> string) list" where
  "body_pieces chunk_size chunk_overlap root_el =
     concat (map (\<lambda>(section_title, section_content).
                    map (\<lambda>piece. (section_title, piece))
                        (chunk_text chunk_size chunk_overlap section_content))
                 (extract_body_sections root_el))"

definition labelled_pieces :: "int \<Rightarrow> int \<Rightarrow> element \<Rightarrow> (string \<times> string) list" where
  "labelled_pieces chunk_size chunk_overlap root_el =
     abstract_pieces root_el @ body_pieces chunk_size chunk_overlap root_el"

text \<open>Chunks for a list of labelled pieces, numbered consecutively from \<open>n\<close>.\<close>

fun number_from :: "paper \<Rightarrow> int \<Rightarrow> (string \<times> string) list \<Rightarrow> paper_chunk list" where
  "number_from paper n [] = []"
| "number_from paper n ((section_title, piece) # rest) =
     make_chunk paper section_title piece n # number_from paper (n + 1) rest"

text \<open>The normalised paragraph text of a section.\<close>

definition section_content_of :: "element \<Rightarrow> string" where
  "section_content_of sec = strip (sub_ws (join '' '' (section_parts sec)))"

text \<open>
  Three articles with the same body of two sections, the second without a title: one with
  an abstract of two sentences, one whose abstract element is empty, and one with an empty
  abstract element followed by a second abstract that has text.
\<close>

definition el :: "string \<Rightarrow> string \<Rightarrow> element list \<Rightarrow> element" where
  "el name txt cs = Element name [] (if txt = [] then None else Some txt) cs None"

definition demo_article :: "element list \<Rightarrow> element" where
  "demo_article abstract =
     el ''article'' [] [
       el ''front'' [] ([el ''article-title'' ''Statins in adults'' []] @ abstract),
       el ''body'' [] [
         el ''sec'' [] [el ''title'' ''Methods'' [],
                        el ''p'' ''We searched trials. We pooled them.'' []],
         el ''sec'' [] [el ''p'' ''Statins help.'' []]]]"


definition blank_abstract_article :: element where
  "blank_abstract_article = demo_article [el ''abstract'' [] []]"

definition two_abstracts_article :: element where
  "two_abstracts_article =
     demo_article [el ''abstract'' [] [], el ''abstract'' [] [el ''p'' ''Late summary.'' []]]"

definition full_article :: element where
  "full_article =
     demo_article [el ''abstract'' [] [el ''p'' ''Short summary. Second sentence here.'' []]]"

definition no_year :: "string \<Rightarrow> int option" where
  "no_year s = None"

definition chunk_labels ::
  "(paper \<times> paper_chunk list) option \<Rightarrow> (string option \<times> int) list option" where
  "chunk_labels result =
     (case result of
        None \<Rightarrow> None
      | Some (paper, chunks) \<Rightarrow> Some (map (\<lambda>c. (c_section_title c, c_chunk_index c)) chunks))"

text \<open>
  A store that finds nothing and answers with an error text reporting the arguments of the
  call, and a report that spells out the year range.
\<close>

definition reporting_store ::
  "(string \<Rightarrow> string option \<Rightarrow> string option \<Rightarrow> (int \<times> int) option \<Rightarrow> string)
     \<Rightarrow> store_search" where
  "reporting_store report query topic paper_type year_range =
     empty_results (report query topic paper_type year_range)"

definition range_report ::
  "string \<Rightarrow> string option \<Rightarrow> string option \<Rightarrow> (int \<times> int) option \<Rightarrow> string" where
  "range_report query topic paper_type year_range =
     (case year_range of
        Some (lo, hi) \<Rightarrow> ''range '' @ str_int lo @ '' to '' @ str_int hi
      | None \<Rightarrow> ''no range'')"

text \<open>
  The title under which a folder entry would be ingested, if it is an XML file whose paper
  is not skipped; and these titles for a whole folder.
\<close>

definition file_title :: "processor \<Rightarrow> folder_file \<Rightarrow> string option" where
  "file_title proc f =
     (if is_xml_file f
      then (case proc (f_name f) (f_parsed f) of
              None \<Rightarrow> None
            | Some (paper, chunks) \<Rightarrow> Some (p_title paper))
      else None)"

definition ingestible_titles :: "processor \<Rightarrow> folder_file list \<Rightarrow> string list" where
  "ingestible_titles proc files = List.map_filter (file_title proc) files"

text \<open>
  A folder with one paper, a text file and an XML file that does not parse; a store loaded
  from it.
\<close>

definition plain_dumps :: "string list \<Rightarrow> string" where
  "plain_dumps xs = ''['' @ join '', '' xs @ '']''"

definition demo_processor :: processor where
  "demo_processor = process_medical_paper 20 0 no_year []"

definition demo_file :: folder_file where
  "demo_file = \<lparr>f_name = ''a.XML'', f_is_file = True, f_parsed = Parsed full_article False\<rparr>"

definition demo_folder :: "folder_file list" where
  "demo_folder = [demo_file,
                  \<lparr>f_name = ''notes.txt'', f_is_file = True, f_parsed = ParseError\<rparr>,
                  \<lparr>f_name = ''b.xml'', f_is_file = True, f_parsed = ParseError\<rparr>]"

definition empty_store :: vector_store where
  "empty_store = \<lparr>paper_catalog = [], paper_content = []\<rparr>"

definition loaded_store :: vector_store where
  "loaded_store = fst (add_papers_from_folder demo_processor plain_dumps empty_store (Some demo_folder) True)"













section \<open>The filter builder\<close>

lemma build_filter_eq:
  "build_filter topic paper_type year_range =
     (let ps = provided_predicates topic paper_type year_range
      in if ps = [] then None else if length ps = 1 then Some (ps ! 0) else Some (AndAll ps))"
  by (simp add: build_filter_def provided_predicates_def Let_def split: option.splits prod.splits)

text \<open>
  C1, as the claim states it, fails on an empty topic string: the criterion is present, yet
  the builder adds no predicate for it and returns no filter.
\<close>

theorem build_filter_empty_topic_counterexample:
  "build_filter (Some []) None None = None
   \<and> build_filter (Some []) None None \<noteq> Some (Eq ''topic'' [])"
  by (simp add: build_filter_def)

text \<open>
  C1 (amended).  Counting a topic or paper type as provided when it is present and not the
  empty string, and a year range whenever it is present: the builder returns no filter when
  no criterion is provided, the single predicate unwrapped when exactly one is, and the
  conjunction of exactly the provided predicates, in the order topic, paper type, year
  range, when two or more are.
\<close>

theorem build_filter_cases:
  "(provided_predicates topic paper_type year_range = [] \<longrightarrow>
      build_filter topic paper_type year_range = None)
   \<and> (\<forall>p. provided_predicates topic paper_type year_range = [p] \<longrightarrow>
      build_filter topic paper_type year_range = Some p)
   \<and> (2 \<le> length (provided_predicates topic paper_type year_range) \<longrightarrow>
      build_filter topic paper_type year_range
        = Some (AndAll (provided_predicates topic paper_type year_range)))"
  by (auto simp add: build_filter_eq Let_def)

theorem build_filter_cases_witness:
  "build_filter None None None = None
   \<and> build_filter None (Some ''Review'') None = Some (Eq ''paper_type'' ''Review'')
   \<and> build_filter (Some ''Cardiology'') (Some ''Review'') (Some (2020, 2100))
       = Some (AndAll [Eq ''topic'' ''Cardiology'', Eq ''paper_type'' ''Review'',
                       Range ''year'' 2020 2100])"
  using build_filter_cases [of None None None]
        build_filter_cases [of None "Some ''Review''" None]
        build_filter_cases [of "Some ''Cardiology''" "Some ''Review''" "Some (2020, 2100)"]
  by (simp add: provided_predicates_def)

section \<open>The search capability\<close>

text \<open>
  C2.  With neither bound the store gets no year range; otherwise it gets a complete range
  in which a missing lower bound is 1900 and a missing upper bound is 2100
  (\<open>min_year = 2022\<close> alone gives \<open>(2022, 2100)\<close>).  That range is what the store
  receives: a store that answers with a report of the arguments it was called with makes
  \<open>execute\<close> return the report of the query, the topic, the paper type and exactly this
  range; and two stores that answer alike on these arguments make \<open>execute\<close> behave alike.
\<close>

theorem year_range_sentinels:
  "build_year_range None None = None
   \<and> build_year_range (Some a) None = Some (a, 2100)
   \<and> build_year_range None (Some b) = Some (1900, b)
   \<and> build_year_range (Some a) (Some b) = Some (a, b)
   \<and> build_year_range (Some 2022) None = Some (2022, 2100)
   \<and> (report query topic paper_type (build_year_range min_year max_year) \<noteq> [] \<longrightarrow>
        execute (reporting_store report) get_url self query topic paper_type min_year max_year
          = (report query topic paper_type (build_year_range min_year max_year), self))
   \<and> (srch query topic paper_type (build_year_range min_year max_year)
        = srch' query topic paper_type (build_year_range min_year max_year)
      \<longrightarrow> execute srch get_url self query topic paper_type min_year max_year
          = execute srch' get_url self query topic paper_type min_year max_year)"
  by (simp add: build_year_range_def execute_def Let_def reporting_store_def empty_results_def
        truthy_def)

theorem year_range_sentinels_witness:
  "range_report ''statins'' None None (build_year_range (Some 2022) None) \<noteq> []
   \<and> execute (reporting_store range_report) (\<lambda>t. None) \<lparr>last_sources = []\<rparr>
         ''statins'' None None (Some 2022) None
       = (''range 2022 to 2100'', \<lparr>last_sources = []\<rparr>)
   \<and> range_report ''statins'' None None (build_year_range None None) \<noteq> []
   \<and> execute (reporting_store range_report) (\<lambda>t. None) \<lparr>last_sources = []\<rparr>
         ''statins'' None None None None
       = (''no range'', \<lparr>last_sources = []\<rparr>)
   \<and> reporting_store range_report ''statins'' None None (build_year_range (Some 2022) None)
       = empty_results ''range 2022 to 2100''
   \<and> execute (reporting_store range_report) (\<lambda>t. None) \<lparr>last_sources = []\<rparr>
         ''statins'' None None (Some 2022) None
       = execute (\<lambda>q t p y. empty_results ''range 2022 to 2100'') (\<lambda>t. None)
           \<lparr>last_sources = []\<rparr> ''statins'' None None (Some 2022) None"
proof -
  have v1: "range_report ''statins'' None None (build_year_range (Some 2022) None)
      = ''range 2022 to 2100''"
    by code_simp
  have v2: "range_report ''statins'' None None (build_year_range None None) = ''no range''"
    by code_simp
  have h1: "range_report ''statins'' None None (build_year_range (Some 2022) None) \<noteq> []"
    unfolding v1 by simp
  have h2: "range_report ''statins'' None None (build_year_range None None) \<noteq> []"
    unfolding v2 by simp
  have h3: "reporting_store range_report ''statins'' None None (build_year_range (Some 2022) None)
      = empty_results ''range 2022 to 2100''"
    unfolding reporting_store_def v1 by (rule refl)
  note t1 = year_range_sentinels [of 0 0 range_report "''statins''" None None "Some 2022" None
      "\<lambda>t. None" "\<lparr>last_sources = []\<rparr>" "reporting_store range_report"
      "\<lambda>q t p y. empty_results ''range 2022 to 2100''"]
  note t2 = year_range_sentinels [of 0 0 range_report "''statins''" None None None None
      "\<lambda>t. None" "\<lparr>last_sources = []\<rparr>" "reporting_store range_report"
      "reporting_store range_report"]
  note c6 = conjunct2 [THEN conjunct2, THEN conjunct2, THEN conjunct2, THEN conjunct2,
      THEN conjunct1]
  note c7 = conjunct2 [THEN conjunct2, THEN conjunct2, THEN conjunct2, THEN conjunct2,
      THEN conjunct2]
  note o1 = t1 [THEN c6, THEN mp, OF h1, unfolded v1]
  note o2 = t2 [THEN c6, THEN mp, OF h2, unfolded v2]
  note o3 = t1 [THEN c7, THEN mp, OF h3]
  show ?thesis
    by (intro conjI h1 h2 h3 o1 o2 o3)
qed

subsection \<open>Citation sources\<close>

lemma format_loop_sources:
  "snd (format_loop get_url items formatted sources) =
     sources @ map (\<lambda>it. (title_of (snd it), make_source get_url (snd it)))
       (first_per_title (filter (\<lambda>it. title_of (snd it) \<notin> fst ` set sources) items))"
proof (induction items arbitrary: formatted sources)
  case Nil
  then show ?case by simp
next
  case (Cons it items)
  obtain doc meta where it: "it = (doc, meta)" by (cases it)
  show ?case
  proof (cases "title_of meta \<in> fst ` set sources")
    case True
    then show ?thesis
      using Cons.IH [of _ sources] by (simp add: it title_of_def Let_def)
  next
    case False
    have eq: "filter (\<lambda>it. title_of (snd it)
                  \<notin> fst ` set (sources @ [(title_of meta, make_source get_url meta)])) items
        = filter (\<lambda>jt. title_of (snd jt) \<noteq> title_of meta)
            (filter (\<lambda>it. title_of (snd it) \<notin> fst ` set sources) items)"
      by (auto intro: filter_cong)
    from False show ?thesis
      using Cons.IH [of _ "sources @ [(title_of meta, make_source get_url meta)]"]
      unfolding eq by (simp add: it title_of_def [symmetric] Let_def)
  qed
qed

lemma first_per_title_set:
  "title_of ` snd ` set (first_per_title items) = title_of ` snd ` set items"
proof (induction items rule: first_per_title.induct)
  case 1
  then show ?case by simp
next
  case (2 it its)
  then show ?case by (simp add: image_image) blast
qed

lemma first_per_title_subset: "set (first_per_title items) \<subseteq> set items"
  by (induction items rule: first_per_title.induct) auto

lemma first_per_title_distinct:
  "distinct (map (\<lambda>it. title_of (snd it)) (first_per_title items))"
proof (induction items rule: first_per_title.induct)
  case 1
  then show ?case by simp
next
  case (2 it its)
  have "title_of (snd it) \<notin> (\<lambda>it. title_of (snd it)) `
          set (first_per_title (filter (\<lambda>jt. title_of (snd jt) \<noteq> title_of (snd it)) its))"
    using first_per_title_subset [of "filter (\<lambda>jt. title_of (snd jt) \<noteq> title_of (snd it)) its"]
    by auto
  with 2 show ?case by simp
qed

text \<open>
  C6.  When an invocation reaches the formatting path (the store's result carries no error
  and is not empty), the recorded sources are the sources of the evidence items that are
  the first of their document title, in order of first occurrence: one entry per distinct
  title, as many entries as there are distinct titles, and the same list whatever sources
  the tool held before.
\<close>

theorem sources_one_per_title:
  "\<not> truthy (error (srch query topic paper_type (build_year_range min_year max_year))) \<and>
   \<not> is_empty (srch query topic paper_type (build_year_range min_year max_year)) \<longrightarrow>
   (let r = srch query topic paper_type (build_year_range min_year max_year);
        items = zip (documents r) (metadata r);
        recorded = last_sources
          (snd (execute srch get_url self query topic paper_type min_year max_year))
    in recorded = map (\<lambda>it. make_source get_url (snd it)) (first_per_title items)
       \<and> distinct (map (\<lambda>it. title_of (snd it)) (first_per_title items))
       \<and> set (map (\<lambda>it. title_of (snd it)) (first_per_title items))
           = set (map (\<lambda>it. title_of (snd it)) items)
       \<and> length recorded = card (set (map (\<lambda>it. title_of (snd it)) items))
       \<and> recorded = last_sources
           (snd (execute srch get_url self' query topic paper_type min_year max_year)))"
proof -
  let ?r = "srch query topic paper_type (build_year_range min_year max_year)"
  let ?items = "zip (documents ?r) (metadata ?r)"
  have set_eq: "set (map (\<lambda>it. title_of (snd it)) (first_per_title ?items))
           = set (map (\<lambda>it. title_of (snd it)) ?items)"
    using first_per_title_set [of ?items] by (simp add: image_image)
  have card_eq: "length (first_per_title ?items)
           = card (set (map (\<lambda>it. title_of (snd it)) ?items))"
    using distinct_card [OF first_per_title_distinct [of ?items]] set_eq by simp
  have rec: "\<not> truthy (error ?r) \<Longrightarrow> \<not> is_empty ?r \<Longrightarrow>
      last_sources (snd (execute srch get_url s query topic paper_type min_year max_year))
        = map (\<lambda>it. make_source get_url (snd it)) (first_per_title ?items)" for s
    using format_loop_sources [of get_url ?items "[]" "[]"]
    by (auto simp add: execute_def Let_def format_results_def split: prod.splits)
  show ?thesis
    using rec [of self] rec [of self'] set_eq card_eq first_per_title_distinct [of ?items]
    by (simp add: Let_def)
qed

theorem sources_one_per_title_witness:
  "\<not> truthy (error demo_hits) \<and> \<not> is_empty demo_hits
   \<and> last_sources (snd (execute (\<lambda>q t p y. demo_hits) (\<lambda>t. None)
        \<lparr>last_sources = [\<lparr>src_text = ''old'', src_url = None\<rparr>]\<rparr> ''lipids'' None None None None))
     = [\<lparr>src_text = ''Statins - 2021 - BMJ'', src_url = None\<rparr>,
        \<lparr>src_text = ''Aspirin - 2019 - BMJ'', src_url = None\<rparr>]"
proof -
  have h: "\<not> truthy (error demo_hits) \<and> \<not> is_empty demo_hits"
    by code_simp
  have v: "map (\<lambda>it. make_source (\<lambda>t. None) (snd it))
             (first_per_title (zip (documents demo_hits) (metadata demo_hits)))
     = [\<lparr>src_text = ''Statins - 2021 - BMJ'', src_url = None\<rparr>,
        \<lparr>src_text = ''Aspirin - 2019 - BMJ'', src_url = None\<rparr>]"
    by code_simp
  show ?thesis
    using h v sources_one_per_title [of "\<lambda>q t p y. demo_hits" "''lipids''" None None None None
      "\<lambda>t. None" "\<lparr>last_sources = [\<lparr>src_text = ''old'', src_url = None\<rparr>]\<rparr>"
      "\<lparr>last_sources = []\<rparr>"]
    by (simp add: Let_def)
qed

subsection \<open>Errors and empty results\<close>

lemma search_error_text:
  "error (search b mr q t p y l) = Some e \<Longrightarrow> \<exists>m. e = ''Search error: '' @ m"
  by (auto simp: search_def Let_def from_chroma_def empty_results_def split: sum.splits)

lemma no_results_message_head:
  "\<exists>info. no_results_message t p y = ''No relevant medical literature found'' @ info"
  by (simp add: no_results_message_def Let_def)

lemma sublist_appI: "sublist xs ys \<Longrightarrow> sublist xs (zs @ ys)"
  by (metis sublist_append)

lemma sublist_appI2: "sublist xs ys \<Longrightarrow> sublist xs (ys @ zs)"
  by (metis sublist_append)

lemma no_results_message_split:
  "no_results_message t p y =
     ''No relevant medical literature found''
     @ (case t of Some s \<Rightarrow> if s \<noteq> [] then '' in topic '' @ [apostrophe] @ s @ [apostrophe] else []
        | None \<Rightarrow> [])
     @ (case p of Some s \<Rightarrow> if s \<noteq> [] then '' of type '' @ [apostrophe] @ s @ [apostrophe] else []
        | None \<Rightarrow> [])
     @ (case y of Some (lo, hi) \<Rightarrow> '' from years '' @ str_int lo @ ''-'' @ str_int hi | None \<Rightarrow> [])
     @ ''.''"
  by (simp add: no_results_message_def Let_def split: option.splits prod.splits)

lemma quoted_part_contains:
  "sublist s (if s \<noteq> [] then pre @ [apostrophe] @ s @ [apostrophe] else [])"
proof (cases "s = []")
  case True
  then show ?thesis by simp
next
  case False
  have "sublist s ((pre @ [apostrophe]) @ s @ [apostrophe])"
    by (rule sublist_appendI)
  with False show ?thesis by simp
qed

lemma no_results_contains_topic: "sublist t (no_results_message (Some t) p y)"
  unfolding no_results_message_split [of "Some t" p y] option.case
  by (rule sublist_appI, rule sublist_appI2, rule quoted_part_contains)

lemma no_results_contains_type: "sublist p (no_results_message t (Some p) y)"
  unfolding no_results_message_split [of t "Some p" y] option.case
  by (rule sublist_appI, rule sublist_appI, rule sublist_appI2, rule quoted_part_contains)

lemma no_results_contains_years:
  "sublist (str_int lo @ ''-'' @ str_int hi) (no_results_message t p (Some (lo, hi)))"
  unfolding no_results_message_split [of t p "Some (lo, hi)"] option.case prod.case
  by (rule sublist_appI, rule sublist_appI, rule sublist_appI, rule sublist_appI2,
      rule sublist_append_leftI)

lemma sublist_app_left: "sublist (xs @ ys) zs \<Longrightarrow> sublist xs zs"
  by (metis sublist_def append.assoc)

lemma sublist_app_right: "sublist (xs @ ys) zs \<Longrightarrow> sublist ys zs"
  by (metis sublist_def append.assoc)

text \<open>
  C7.  With the vector store as facade: when its result carries an error, \<open>execute\<close>
  returns the error text unchanged, and that text is never a "no results" message; when the
  result is empty without an error, \<open>execute\<close> returns the "no results" message, which
  contains the topic, the paper type and both years of the range that were applied, and is
  never the error text of any facade result.
\<close>

theorem execute_error_and_empty:
  "(let r = vs_search b mr query topic paper_type (build_year_range min_year max_year);
        out = fst (execute (vs_search b mr) get_url self query topic paper_type min_year max_year)
    in (\<forall>e. error r = Some e \<longrightarrow>
          out = e \<and> (\<forall>t p y. out \<noteq> no_results_message t p y))
     \<and> (error r = None \<and> is_empty r \<longrightarrow>
          out = no_results_message topic paper_type (build_year_range min_year max_year)
          \<and> (\<forall>t. topic = Some t \<longrightarrow> sublist t out)
          \<and> (\<forall>p. paper_type = Some p \<longrightarrow> sublist p out)
          \<and> (\<forall>lo hi. build_year_range min_year max_year = Some (lo, hi) \<longrightarrow>
                sublist (str_int lo) out \<and> sublist (str_int hi) out)
          \<and> (\<forall>b' mr' q' t' p' y' e'. error (vs_search b' mr' q' t' p' y') = Some e' \<longrightarrow> out \<noteq> e')))"
proof -
  let ?yr = "build_year_range min_year max_year"
  let ?r = "vs_search b mr query topic paper_type ?yr"
  let ?out = "fst (execute (vs_search b mr) get_url self query topic paper_type min_year max_year)"
  have err: "?out = e \<and> (\<forall>t p y. ?out \<noteq> no_results_message t p y)" if he: "error ?r = Some e" for e
  proof -
    obtain m where m: "e = ''Search error: '' @ m"
      using search_error_text [of b mr query topic paper_type ?yr None e] he
      unfolding vs_search_def by blast
    have "?out = e" using he m by (simp add: execute_def Let_def truthy_def)
    moreover have "e \<noteq> no_results_message t p y" for t p y
      using no_results_message_head [of t p y] m by auto
    ultimately show ?thesis by simp
  qed
  have emp: "?out = no_results_message topic paper_type ?yr" if "error ?r = None" "is_empty ?r"
    using that by (simp add: execute_def Let_def truthy_def)
  have diff: "no_results_message t p y \<noteq> e'" if he: "error (vs_search b' mr' q' t' p' y') = Some e'"
    for t p y b' mr' q' t' p' y' e'
  proof -
    obtain m where m: "e' = ''Search error: '' @ m"
      using search_error_text [of b' mr' q' t' p' y' None e'] he
      unfolding vs_search_def by blast
    show ?thesis using no_results_message_head [of t p y] m by auto
  qed
  have yrs: "sublist (str_int lo) (no_results_message t p (Some (lo, hi)))
      \<and> sublist (str_int hi) (no_results_message t p (Some (lo, hi)))" for lo hi t p
    using no_results_contains_years [of lo hi t p]
    by (metis sublist_app_left sublist_app_right)
  have emp_all: "?out = no_results_message topic paper_type ?yr
          \<and> (\<forall>t. topic = Some t \<longrightarrow> sublist t ?out)
          \<and> (\<forall>p. paper_type = Some p \<longrightarrow> sublist p ?out)
          \<and> (\<forall>lo hi. ?yr = Some (lo, hi) \<longrightarrow>
                sublist (str_int lo) ?out \<and> sublist (str_int hi) ?out)
          \<and> (\<forall>b' mr' q' t' p' y' e'.
                error (vs_search b' mr' q' t' p' y') = Some e' \<longrightarrow> ?out \<noteq> e')"
    if h1: "error ?r = None" and h2: "is_empty ?r"
  proof -
    have o: "?out = no_results_message topic paper_type ?yr" using emp h1 h2 by blast
    have a: "\<forall>t. topic = Some t \<longrightarrow> sublist t ?out"
      unfolding o using no_results_contains_topic by blast
    have b: "\<forall>p. paper_type = Some p \<longrightarrow> sublist p ?out"
      unfolding o using no_results_contains_type by blast
    have c: "\<forall>lo hi. ?yr = Some (lo, hi) \<longrightarrow>
                sublist (str_int lo) ?out \<and> sublist (str_int hi) ?out"
      unfolding o using yrs by simp
    have d: "\<forall>b' mr' q' t' p' y' e'.
                error (vs_search b' mr' q' t' p' y') = Some e' \<longrightarrow> ?out \<noteq> e'"
      unfolding o using diff by blast
    show ?thesis using o a b c d by blast
  qed
  show ?thesis
    unfolding Let_def using err emp_all by blast
qed

text \<open>
  C10.  An invocation that returns an error text or a "no results" message leaves the tool,
  and so its recorded sources, as it was.
\<close>

theorem sources_unchanged_without_success:
  "truthy (error (srch query topic paper_type (build_year_range min_year max_year)))
     \<or> is_empty (srch query topic paper_type (build_year_range min_year max_year)) \<longrightarrow>
   last_sources (snd (execute srch get_url self query topic paper_type min_year max_year))
     = last_sources self
   \<and> snd (execute srch get_url self query topic paper_type min_year max_year) = self"
  by (auto simp: execute_def Let_def truthy_def split: option.splits)

theorem execute_error_and_empty_witness:
  "error (vs_search failing_backend 5 ''statins'' None None (build_year_range None None))
      = Some ''Search error: index offline''
   \<and> fst (execute (vs_search failing_backend 5) (\<lambda>t. None) \<lparr>last_sources = []\<rparr>
            ''statins'' None None None None) = ''Search error: index offline''
   \<and> error (vs_search empty_backend 5 ''statins'' (Some ''Cardiology'') None
              (build_year_range (Some 2022) None)) = None
   \<and> is_empty (vs_search empty_backend 5 ''statins'' (Some ''Cardiology'') None
              (build_year_range (Some 2022) None))
   \<and> sublist ''Cardiology'' (fst (execute (vs_search empty_backend 5) (\<lambda>t. None)
            \<lparr>last_sources = []\<rparr> ''statins'' (Some ''Cardiology'') None (Some 2022) None))"
proof -
  have e1: "error (vs_search failing_backend 5 ''statins'' None None (build_year_range None None))
      = Some ''Search error: index offline''"
    by code_simp
  have e2: "error (vs_search empty_backend 5 ''statins'' (Some ''Cardiology'') None
              (build_year_range (Some 2022) None)) = None
        \<and> is_empty (vs_search empty_backend 5 ''statins'' (Some ''Cardiology'') None
              (build_year_range (Some 2022) None))"
    by code_simp
  note t1 = execute_error_and_empty [of failing_backend 5 "''statins''" None None None None
        "\<lambda>t. None" "\<lparr>last_sources = []\<rparr>", unfolded Let_def]
  note t2 = execute_error_and_empty [of empty_backend 5 "''statins''" "Some ''Cardiology''" None
        "Some 2022" None "\<lambda>t. None" "\<lparr>last_sources = []\<rparr>", unfolded Let_def]
  note o1 = t1 [THEN conjunct1, THEN spec, THEN mp, OF e1, THEN conjunct1]
  note o2 = t2 [THEN conjunct2, THEN mp, OF e2, THEN conjunct2, THEN conjunct1, THEN spec,
        THEN mp, OF refl]
  show ?thesis
    by (intro conjI e1 o1 e2 [THEN conjunct1] e2 [THEN conjunct2] o2)
qed

theorem sources_unchanged_without_success_witness:
  "truthy (error (vs_search failing_backend 5 ''statins'' None None (build_year_range None None)))
   \<and> snd (execute (vs_search failing_backend 5) (\<lambda>t. None) old_sources
        ''statins'' None None None None) = old_sources
   \<and> is_empty (vs_search empty_backend 5 ''statins'' None None (build_year_range None None))
   \<and> snd (execute (vs_search empty_backend 5) (\<lambda>t. None) old_sources
        ''statins'' None None None None) = old_sources"
proof -
  have e1: "truthy (error (vs_search failing_backend 5 ''statins'' None None (build_year_range None None)))"
    by code_simp
  have e2: "is_empty (vs_search empty_backend 5 ''statins'' None None (build_year_range None None))"
    by code_simp
  note o1 = sources_unchanged_without_success [of "vs_search failing_backend 5" "''statins''"
         None None None None "\<lambda>t. None" old_sources, THEN mp, OF disjI1, OF e1, THEN conjunct2]
  note o2 = sources_unchanged_without_success [of "vs_search empty_backend 5" "''statins''"
         None None None None "\<lambda>t. None" old_sources, THEN mp, OF disjI2, OF e2, THEN conjunct2]
  show ?thesis
    by (intro conjI e1 e2 o1 o2)
qed

section \<open>The chunker\<close>

declare chunk_loop.simps [simp del] loop_starts.simps [simp del]

lemma join_snoc: "xs \<noteq> [] \<Longrightarrow> join sep (xs @ [x]) = join sep xs @ sep @ x"
  by (induction sep xs rule: join.induct) auto

lemma join_nonempty: "x \<noteq> [] \<Longrightarrow> join sep (x # xs) \<noteq> []"
  by (cases xs) auto

lemma build_chunk_prefix:
  "\<exists>n. build_chunk cs rest cur sz = cur @ take n rest"
proof (induction rest arbitrary: cur sz)
  case Nil
  then show ?case by simp
next
  case (Cons s rest)
  show ?case
  proof (cases "sz + (int (length s) + space_size cur) > cs \<and> cur \<noteq> []")
    case True
    then have "build_chunk cs (s # rest) cur sz = cur @ take 0 (s # rest)"
      by (simp add: Let_def)
    then show ?thesis by blast
  next
    case False
    obtain n where "build_chunk cs rest (cur @ [s]) (sz + (int (length s) + space_size cur))
        = (cur @ [s]) @ take n rest"
      using Cons.IH by blast
    with False have "build_chunk cs (s # rest) cur sz = cur @ take (Suc n) (s # rest)"
      by (auto simp add: Let_def)
    then show ?thesis by blast
  qed
qed

lemma build_chunk_first:
  "\<exists>n. build_chunk cs (s # rest) [] sz = take (Suc n) (s # rest)"
proof -
  obtain n where "build_chunk cs rest [s] (sz + int (length s)) = [s] @ take n rest"
    using build_chunk_prefix by blast
  then have "build_chunk cs (s # rest) [] sz = take (Suc n) (s # rest)"
    by (simp add: Let_def space_size_def)
  then show ?thesis by blast
qed

lemma build_chunk_size:
  "cur \<noteq> [] \<Longrightarrow> sz = int (length (join '' '' cur)) \<Longrightarrow>
     build_chunk cs rest cur sz = cur
     \<or> int (length (join '' '' (build_chunk cs rest cur sz))) \<le> cs"
proof (induction rest arbitrary: cur sz)
  case Nil
  then show ?case by simp
next
  case (Cons s rest)
  show ?case
  proof (cases "sz + (int (length s) + space_size cur) > cs")
    case True
    with Cons.prems show ?thesis by (simp add: Let_def)
  next
    case False
    let ?cur = "cur @ [s]" and ?sz = "sz + (int (length s) + space_size cur)"
    have sz: "?sz = int (length (join '' '' ?cur))"
      using Cons.prems by (simp add: join_snoc space_size_def)
    have "build_chunk cs rest ?cur ?sz = ?cur
        \<or> int (length (join '' '' (build_chunk cs rest ?cur ?sz))) \<le> cs"
      using Cons.IH [of ?cur ?sz] sz by simp
    moreover have "int (length (join '' '' ?cur)) \<le> cs"
      using False sz by simp
    ultimately have "int (length (join '' '' (build_chunk cs rest ?cur ?sz))) \<le> cs"
      by auto
    with False show ?thesis by (simp add: Let_def)
  qed
qed

lemma build_chunk_first_size:
  "build_chunk cs (s # rest) [] 0 = [s]
   \<or> int (length (join '' '' (build_chunk cs (s # rest) [] 0))) \<le> cs"
  using build_chunk_size [of "[s]" "int (length s)" cs rest]
  by (simp add: Let_def space_size_def)

lemma drop_at: "i < length xs \<Longrightarrow> drop i xs = xs ! i # drop (Suc i) xs"
  by (simp add: Cons_nth_drop_Suc)

lemma advance_bounds:
  "g \<noteq> [] \<Longrightarrow> i < advance ov i g \<and> advance ov i g \<le> i + length g"
  by (auto simp: advance_def Let_def simp flip: length_greater_0_conv)

lemma loop_body_progress: "i < fst (loop_body cs ov ss i chunks)"
  using advance_bounds by (simp add: loop_body_def Let_def)

lemma loop_body_in_range:
  assumes "i < length ss"
  shows "\<exists>n. loop_body cs ov ss i chunks =
            (advance ov i (take (Suc n) (drop i ss)),
             chunks @ [join '' '' (take (Suc n) (drop i ss))])
          \<and> build_chunk cs (drop i ss) [] 0 = take (Suc n) (drop i ss)"
proof -
  obtain n where n: "build_chunk cs (drop i ss) [] 0 = take (Suc n) (drop i ss)"
    using build_chunk_first [of cs "ss ! i" "drop (Suc i) ss" 0] drop_at [OF assms] by auto
  have "take (Suc n) (drop i ss) \<noteq> []"
    using assms by (simp add: drop_at)
  with n show ?thesis by (auto simp add: loop_body_def Let_def)
qed

lemma chunk_loop_stop: "\<not> i < length ss \<Longrightarrow> chunk_loop cs ov ss i chunks = chunks"
  by (simp add: chunk_loop.simps [of cs ov ss i chunks])

lemma chunk_loop_step:
  assumes "i < length ss"
  shows "\<exists>n. build_chunk cs (drop i ss) [] 0 = take (Suc n) (drop i ss)
          \<and> chunk_loop cs ov ss i chunks =
              chunk_loop cs ov ss (advance ov i (take (Suc n) (drop i ss)))
                (chunks @ [join '' '' (take (Suc n) (drop i ss))])"
proof -
  obtain n where n: "loop_body cs ov ss i chunks =
            (advance ov i (take (Suc n) (drop i ss)),
             chunks @ [join '' '' (take (Suc n) (drop i ss))])"
      "build_chunk cs (drop i ss) [] 0 = take (Suc n) (drop i ss)"
    using loop_body_in_range [OF assms] by blast
  show ?thesis
    using assms n by (subst chunk_loop.simps) auto
qed

lemma loop_starts_stop: "\<not> i < length ss \<Longrightarrow> loop_starts cs ov ss i chunks = []"
  by (simp add: loop_starts.simps [of cs ov ss i chunks])

lemma loop_starts_step:
  assumes "i < length ss"
  shows "\<exists>i' chunks'. i < i' \<and> loop_starts cs ov ss i chunks = i # loop_starts cs ov ss i' chunks'"
proof -
  obtain i' chunks' where b: "loop_body cs ov ss i chunks = (i', chunks')"
    by (cases "loop_body cs ov ss i chunks")
  have "i < i'" using loop_body_progress [of i cs ov ss chunks] b by simp
  moreover have "loop_starts cs ov ss i chunks = i # loop_starts cs ov ss i' chunks'"
    using assms b by (subst loop_starts.simps) simp
  ultimately show ?thesis by blast
qed

lemma take_drop_nonempty: "i < length ss \<Longrightarrow> take (Suc n) (drop i ss) \<noteq> []"
  by (simp add: drop_at)

lemma chunk_loop_mono: "set chunks \<subseteq> set (chunk_loop cs ov ss i chunks)"
proof (induction "length ss - i" arbitrary: i chunks rule: less_induct)
  case less
  show ?case
  proof (cases "i < length ss")
    case True
    obtain n where n: "chunk_loop cs ov ss i chunks =
              chunk_loop cs ov ss (advance ov i (take (Suc n) (drop i ss)))
                (chunks @ [join '' '' (take (Suc n) (drop i ss))])"
      using chunk_loop_step [OF True] by blast
    let ?g = "take (Suc n) (drop i ss)"
    have "i < advance ov i ?g"
      using advance_bounds [OF take_drop_nonempty [OF True]] by blast
    then have "length ss - advance ov i ?g < length ss - i"
      using True by simp
    from less [OF this, of "chunks @ [join '' '' ?g]"] show ?thesis unfolding n by auto
  next
    case False
    then show ?thesis by (simp add: chunk_loop_stop)
  qed
qed

lemma chunk_loop_good:
  assumes ne: "\<forall>s\<in>set ss. s \<noteq> []"
  shows "\<forall>c\<in>set (chunk_loop cs ov ss i chunks).
           c \<in> set chunks
           \<or> (c \<noteq> [] \<and> (int (length c) \<le> cs \<or> (c \<in> set ss \<and> cs < int (length c))))"
proof (induction "length ss - i" arbitrary: i chunks rule: less_induct)
  case less
  show ?case
  proof (cases "i < length ss")
    case True
    obtain n where b: "build_chunk cs (drop i ss) [] 0 = take (Suc n) (drop i ss)"
      and n: "chunk_loop cs ov ss i chunks =
              chunk_loop cs ov ss (advance ov i (take (Suc n) (drop i ss)))
                (chunks @ [join '' '' (take (Suc n) (drop i ss))])"
      using chunk_loop_step [OF True] by blast
    let ?g = "take (Suc n) (drop i ss)"
    have d: "drop i ss = ss ! i # drop (Suc i) ss" by (rule drop_at [OF True])
    have si: "ss ! i \<in> set ss" "ss ! i \<noteq> []"
      using True ne by auto
    have g1: "join '' '' ?g \<noteq> []"
      using si by (simp add: d join_nonempty)
    have "?g = [ss ! i] \<or> int (length (join '' '' ?g)) \<le> cs"
      using build_chunk_first_size [of cs "ss ! i" "drop (Suc i) ss"] b unfolding d by simp
    then have g2: "int (length (join '' '' ?g)) \<le> cs
        \<or> (join '' '' ?g \<in> set ss \<and> cs < int (length (join '' '' ?g)))"
      using si by (cases "int (length (join '' '' ?g)) \<le> cs") auto
    have "i < advance ov i ?g"
      using advance_bounds [OF take_drop_nonempty [OF True]] by blast
    then have "length ss - advance ov i ?g < length ss - i"
      using True by simp
    from less [OF this, of "chunks @ [join '' '' ?g]"] g1 g2 show ?thesis
      unfolding n by auto
  next
    case False
    then show ?thesis by (simp add: chunk_loop_stop)
  qed
qed

lemma chunk_loop_covers:
  "\<forall>k. i \<le> k \<and> k < length ss \<longrightarrow>
     (\<exists>g. ss ! k \<in> set g \<and> join '' '' g \<in> set (chunk_loop cs ov ss i chunks))"
proof (induction "length ss - i" arbitrary: i chunks rule: less_induct)
  case less
  show ?case
  proof (cases "i < length ss")
    case True
    obtain n where n: "chunk_loop cs ov ss i chunks =
              chunk_loop cs ov ss (advance ov i (take (Suc n) (drop i ss)))
                (chunks @ [join '' '' (take (Suc n) (drop i ss))])"
      using chunk_loop_step [OF True] by blast
    let ?g = "take (Suc n) (drop i ss)"
    let ?i' = "advance ov i ?g"
    have adv: "i < ?i'" "?i' \<le> i + length ?g"
      using advance_bounds [OF take_drop_nonempty [OF True]] by blast+
    then have m: "length ss - ?i' < length ss - i"
      using True by simp
    have here: "join '' '' ?g \<in> set (chunk_loop cs ov ss i chunks)"
      unfolding n using chunk_loop_mono [of "chunks @ [join '' '' ?g]" cs ov ss ?i'] by auto
    show ?thesis
    proof (intro allI impI)
      fix k assume k: "i \<le> k \<and> k < length ss"
      show "\<exists>g. ss ! k \<in> set g \<and> join '' '' g \<in> set (chunk_loop cs ov ss i chunks)"
      proof (cases "k < i + length ?g")
        case True
        then have "k - i < length ?g" using k by arith
        then have "?g ! (k - i) \<in> set ?g" by (rule nth_mem)
        moreover have "?g ! (k - i) = ss ! k"
          using \<open>k - i < length ?g\<close> k by simp
        ultimately show ?thesis using here by metis
      next
        case False
        then have "?i' \<le> k \<and> k < length ss" using adv k by simp
        then show ?thesis using less [OF m, of "chunks @ [join '' '' ?g]"] unfolding n by blast
      qed
    qed
  next
    case False
    then show ?thesis by auto
  qed
qed

lemma loop_starts_bounds:
  "\<forall>j\<in>set (loop_starts cs ov ss i chunks). i \<le> j"
proof (induction "length ss - i" arbitrary: i chunks rule: less_induct)
  case less
  show ?case
  proof (cases "i < length ss")
    case True
    obtain i' chunks' where s: "i < i'"
        "loop_starts cs ov ss i chunks = i # loop_starts cs ov ss i' chunks'"
      using loop_starts_step [OF True] by blast
    have "length ss - i' < length ss - i" using s True by simp
    from less [OF this, of chunks'] s show ?thesis by auto
  next
    case False
    then show ?thesis by (simp add: loop_starts_stop)
  qed
qed

lemma loop_starts_sorted: "sorted_wrt (<) (loop_starts cs ov ss i chunks)"
proof (induction "length ss - i" arbitrary: i chunks rule: less_induct)
  case less
  show ?case
  proof (cases "i < length ss")
    case True
    obtain i' chunks' where s: "i < i'"
        "loop_starts cs ov ss i chunks = i # loop_starts cs ov ss i' chunks'"
      using loop_starts_step [OF True] by blast
    have "length ss - i' < length ss - i" using s True by simp
    from less [OF this, of chunks'] s loop_starts_bounds [of cs ov ss i' chunks']
    show ?thesis by auto
  next
    case False
    then show ?thesis by (simp add: loop_starts_stop)
  qed
qed

lemma loop_starts_length: "length (loop_starts cs ov ss i chunks) \<le> length ss - i"
proof (induction "length ss - i" arbitrary: i chunks rule: less_induct)
  case less
  show ?case
  proof (cases "i < length ss")
    case True
    obtain i' chunks' where s: "i < i'"
        "loop_starts cs ov ss i chunks = i # loop_starts cs ov ss i' chunks'"
      using loop_starts_step [OF True] by blast
    have "length ss - i' < length ss - i" using s True by simp
    from less [OF this, of chunks'] s True show ?thesis by auto
  next
    case False
    then show ?thesis by (simp add: loop_starts_stop)
  qed
qed

lemma sentences_nonempty: "\<forall>s\<in>set (sentences_of txt). s \<noteq> []"
  by (simp add: sentences_of_def Let_def)

lemma demo_chunks: "chunk_text 30 100 demo_text = [''Aspirin helps. It is cheap.'', ''It is cheap.'',
  ''Side effects are rare.'', ''Ask a doctor e.g. Dr. Who.'',
  ''This single sentence is far longer than the limit allows.'', ''End.'']"
  by code_simp

lemma demo_starts: "loop_starts 30 100 (sentences_of demo_text) 0 [] = [0, 1, 2, 3, 4, 5]"
  by code_simp

lemma demo_sentences: "sentences_of demo_text = [''Aspirin helps.'', ''It is cheap.'',
  ''Side effects are rare.'', ''Ask a doctor e.g. Dr. Who.'',
  ''This single sentence is far longer than the limit allows.'', ''End.'']"
  by code_simp

text \<open>
  C3.  For every text, every \<open>chunk_size\<close> (so every positive one) and every
  \<open>chunk_overlap\<close>: no emitted chunk is the empty string; every emitted chunk has length at
  most \<open>chunk_size\<close>, or else it is one sentence of the text that alone is longer than
  \<open>chunk_size\<close>; and every sentence of the normalised text belongs to a group of sentences
  whose space-joined text is an emitted chunk.
\<close>

theorem chunks_sized_and_complete:
  "(\<forall>c\<in>set (chunk_text chunk_size chunk_overlap txt). c \<noteq> [])
   \<and> (\<forall>c\<in>set (chunk_text chunk_size chunk_overlap txt).
         int (length c) \<le> chunk_size
         \<or> (c \<in> set (sentences_of txt) \<and> chunk_size < int (length c)))
   \<and> (\<forall>s\<in>set (sentences_of txt).
         \<exists>g. s \<in> set g \<and> join '' '' g \<in> set (chunk_text chunk_size chunk_overlap txt))"
proof -
  let ?ss = "sentences_of txt"
  have good: "\<forall>c\<in>set (chunk_text chunk_size chunk_overlap txt).
      c \<noteq> [] \<and> (int (length c) \<le> chunk_size \<or> (c \<in> set ?ss \<and> chunk_size < int (length c)))"
    using chunk_loop_good [OF sentences_nonempty, of chunk_size chunk_overlap "txt" 0 "[]"]
    by (simp add: chunk_text_def)
  have cover: "\<exists>g. s \<in> set g \<and> join '' '' g \<in> set (chunk_text chunk_size chunk_overlap txt)"
    if hs: "s \<in> set ?ss" for s
  proof -
    obtain k where "k < length ?ss" "?ss ! k = s"
      using hs by (auto simp: in_set_conv_nth)
    then show ?thesis
      using chunk_loop_covers [of 0 ?ss chunk_size chunk_overlap "[]"]
      by (auto simp: chunk_text_def)
  qed
  show ?thesis using good cover by blast
qed

theorem chunks_sized_and_complete_witness:
  "''This single sentence is far longer than the limit allows.''
      \<in> set (chunk_text 30 100 demo_text)
   \<and> ''This single sentence is far longer than the limit allows.'' \<noteq> []
   \<and> (int (length ''This single sentence is far longer than the limit allows.'') \<le> 30
        \<or> (''This single sentence is far longer than the limit allows.''
               \<in> set (sentences_of demo_text)
            \<and> 30 < int (length ''This single sentence is far longer than the limit allows.'')))
   \<and> ''End.'' \<in> set (sentences_of demo_text)
   \<and> (\<exists>g. ''End.'' \<in> set g \<and> join '' '' g \<in> set (chunk_text 30 100 demo_text))"
proof -
  note t = chunks_sized_and_complete [of 30 100 demo_text]
  have m1: "''This single sentence is far longer than the limit allows.''
      \<in> set (chunk_text 30 100 demo_text)"
    unfolding demo_chunks by simp
  have m2: "''End.'' \<in> set (sentences_of demo_text)"
    unfolding demo_sentences by simp
  note a = t [THEN conjunct1, THEN bspec, OF m1]
  note b = t [THEN conjunct2, THEN conjunct1, THEN bspec, OF m1]
  note c = t [THEN conjunct2, THEN conjunct2, THEN bspec, OF m2]
  show ?thesis
    by (intro conjI m1 m2 a b c)
qed

text \<open>
  C4.  For every setting of \<open>chunk_size\<close> and \<open>chunk_overlap\<close> (no relation between the
  two is assumed), every pass of the loop leaves with a start index strictly greater than
  the one it entered with; so the start indices of the passes are strictly increasing, and
  the loop, which is a total function, makes at most one pass per sentence.
\<close>

theorem chunk_index_progress:
  "i < fst (loop_body chunk_size chunk_overlap sentences i chunks)
   \<and> sorted_wrt (<) (loop_starts chunk_size chunk_overlap sentences i chunks)
   \<and> length (loop_starts chunk_size chunk_overlap sentences i chunks) \<le> length sentences - i
   \<and> length (loop_starts chunk_size chunk_overlap (sentences_of txt) 0 [])
        \<le> length (sentences_of txt)"
  using loop_body_progress [of i chunk_size chunk_overlap sentences chunks]
        loop_starts_sorted [of chunk_size chunk_overlap sentences i chunks]
        loop_starts_length [of chunk_size chunk_overlap sentences i chunks]
        loop_starts_length [of chunk_size chunk_overlap "sentences_of txt" 0 "[]"]
  by simp

section \<open>The document parser\<close>

lemma number_from_append:
  "number_from paper n (xs @ ys) = number_from paper n xs @ number_from paper (n + int (length xs)) ys"
  by (induction xs arbitrary: n) (auto simp: algebra_simps)

lemma number_from_index:
  "map c_chunk_index (number_from paper n xs) = map (\<lambda>k. n + int k) [0..<length xs]"
proof (induction xs arbitrary: n)
  case Nil
  then show ?case by simp
next
  case (Cons x xs)
  obtain t piece where x: "x = (t, piece)" by (cases x)
  have "map (\<lambda>k. n + int k) [0..<Suc (length xs)]
      = n # map (\<lambda>k. (n + 1) + int k) [0..<length xs]"
    by (simp add: upt_conv_Cons map_Suc_upt [symmetric] del: upt_Suc)
  then show ?case using Cons.IH [of "n + 1"] by (simp add: x make_chunk_def Let_def)
qed

lemma length_number_from: "length (number_from paper n xs) = length xs"
  by (induction xs arbitrary: n) auto

lemma pieces_fold:
  "foldl (\<lambda>(paper_chunks, chunk_counter) chunk.
            (paper_chunks @ [make_chunk paper t chunk chunk_counter], chunk_counter + 1))
         (pcs, n) xs
     = (pcs @ number_from paper n (map (\<lambda>piece. (t, piece)) xs), n + int (length xs))"
  by (induction xs arbitrary: pcs n) (auto simp: algebra_simps)

lemma add_section_chunks_eq:
  "add_section_chunks cs ov paper (pcs, n) (t, content)
     = (pcs @ number_from paper n (map (\<lambda>piece. (t, piece)) (chunk_text cs ov content)),
        n + int (length (chunk_text cs ov content)))"
  by (simp add: add_section_chunks_def pieces_fold)

lemma sections_fold:
  "foldl (add_section_chunks cs ov paper) (pcs, n) sections
     = (pcs @ number_from paper n
          (concat (map (\<lambda>(t, content). map (\<lambda>piece. (t, piece)) (chunk_text cs ov content))
                       sections)),
        n + int (length (concat (map (\<lambda>(t, content). chunk_text cs ov content) sections))))"
proof (induction sections arbitrary: pcs n)
  case Nil
  then show ?case by simp
next
  case (Cons sec sections)
  obtain t content where sec: "sec = (t, content)" by (cases sec)
  show ?case
    by (simp add: sec add_section_chunks_eq Cons.IH number_from_append algebra_simps)
qed

lemma extract_abstract_eq:
  "extract_abstract root_el =
     (case findall_desc ''abstract'' root_el of
        [] \<Rightarrow> None
      | first_abstract # others \<Rightarrow>
          if normalised_text first_abstract = [] then None
          else Some (normalised_text first_abstract))"
  by (simp add: extract_abstract_def find_desc_def first_of_def normalised_text_def Let_def
        split: list.splits)

lemma build_paper_chunks_eq:
  "build_paper_chunks cs ov paper root_el = number_from paper 0 (labelled_pieces cs ov root_el)"
proof (cases "findall_desc ''abstract'' root_el")
  case Nil
  then show ?thesis
    by (simp add: build_paper_chunks_def labelled_pieces_def abstract_pieces_def body_pieces_def
          extract_abstract_eq Let_def truthy_def sections_fold)
next
  case (Cons first_abstract others)
  then show ?thesis
    by (simp add: build_paper_chunks_def labelled_pieces_def abstract_pieces_def body_pieces_def
          extract_abstract_eq Let_def truthy_def sections_fold or_empty_def)
qed

lemma sections_fold_eq:
  "foldl (\<lambda>sections sec.
            (let title = section_title_of sec;
                 content_parts = section_parts sec
             in if content_parts \<noteq> []
                then (let content = join '' '' content_parts;
                          content = strip (sub_ws content)
                      in sections @ [(title, content)])
                else sections)) acc secs
     = acc @ map (\<lambda>sec. (section_title_of sec, section_content_of sec))
               (filter (\<lambda>sec. section_parts sec \<noteq> []) secs)"
  by (induction secs arbitrary: acc) (auto simp: Let_def section_content_of_def)

lemma extract_body_sections_eq:
  "extract_body_sections root_el =
     (case find_desc ''body'' root_el of
        None \<Rightarrow> []
      | Some body \<Rightarrow> map (\<lambda>sec. (section_title_of sec, section_content_of sec))
                       (filter (\<lambda>sec. section_parts sec \<noteq> []) (findall_desc ''sec'' body)))"
  by (cases "find_desc ''body'' root_el")
     (simp_all only: extract_body_sections_def option.case sections_fold_eq append_Nil)

text \<open>
  C5, as the claim states it, fails on an abstract element without text: the element exists,
  the document is parsed, and no "Abstract" chunk is emitted; the chunk with index 0
  belongs to the first body section.
\<close>

theorem blank_abstract_counterexample:
  "find_desc ''abstract'' blank_abstract_article = Some (el ''abstract'' [] [])
   \<and> chunk_labels (process_medical_paper 20 0 no_year [] ''a.xml''
                     (Parsed blank_abstract_article False))
       = Some [(Some ''Methods'', 0), (Some ''Methods'', 1), (Some ''Untitled Section'', 2)]"
  by code_simp

text \<open>
  C5 (amended).  For every document that is parsed and not skipped: the chunk indices are
  0, 1, 2, ... without gaps; the chunks are the labelled pieces of the document numbered
  from 0.  If the first \<open>abstract\<close> element below the root, in document order, has text
  that is not blank after whitespace normalisation, the first chunk is the one chunk of
  that abstract, with index 0 and label "Abstract", and the chunks after it are the pieces
  of the body sections in document order, numbered from 1.  If there is no \<open>abstract\<close>
  element, or the first one is blank, there is no abstract chunk and the chunks are the
  pieces of the body sections numbered from 0.  The body sections are the \<open>sec\<close> elements
  below the body that have paragraph text, in document order, and a section without a
  title element is labelled "Untitled Section".
\<close>

theorem paper_chunks_layout:
  "process_medical_paper chunk_size chunk_overlap py_int topic_mapping base_name
       (Parsed root_el has_marker) = Some (paper, chunks) \<longrightarrow>
   map c_chunk_index chunks = map int [0..<length chunks]
   \<and> chunks = number_from paper 0 (labelled_pieces chunk_size chunk_overlap root_el)
   \<and> (\<forall>first_abstract others.
         findall_desc ''abstract'' root_el = first_abstract # others
         \<and> normalised_text first_abstract \<noteq> [] \<longrightarrow>
         take 1 chunks = [make_chunk paper ''Abstract'' (normalised_text first_abstract) 0]
         \<and> drop 1 chunks = number_from paper 1 (body_pieces chunk_size chunk_overlap root_el))
   \<and> (findall_desc ''abstract'' root_el = []
        \<or> (\<exists>first_abstract others. findall_desc ''abstract'' root_el = first_abstract # others
              \<and> normalised_text first_abstract = []) \<longrightarrow>
        chunks = number_from paper 0 (body_pieces chunk_size chunk_overlap root_el))
   \<and> extract_body_sections root_el =
       (case find_desc ''body'' root_el of
          None \<Rightarrow> []
        | Some body \<Rightarrow> map (\<lambda>sec. (section_title_of sec, section_content_of sec))
                         (filter (\<lambda>sec. section_parts sec \<noteq> []) (findall_desc ''sec'' body)))
   \<and> (\<forall>sec. find_child ''title'' sec = None \<longrightarrow> section_title_of sec = ''Untitled Section'')"
proof
  assume h: "process_medical_paper chunk_size chunk_overlap py_int topic_mapping base_name
       (Parsed root_el has_marker) = Some (paper, chunks)"
  let ?pieces = "labelled_pieces chunk_size chunk_overlap root_el"
  let ?body = "body_pieces chunk_size chunk_overlap root_el"
  have c: "chunks = number_from paper 0 ?pieces"
    using h by (auto simp: process_medical_paper_def build_paper_chunks_eq Let_def split: if_splits)
  have idx: "map c_chunk_index chunks = map int [0..<length chunks]"
    unfolding c by (simp add: number_from_index length_number_from)
  have abs: "take 1 chunks = [make_chunk paper ''Abstract'' (normalised_text first_abstract) 0]
         \<and> drop 1 chunks = number_from paper 1 ?body"
    if ha: "findall_desc ''abstract'' root_el = first_abstract # others
         \<and> normalised_text first_abstract \<noteq> []" for first_abstract others
    using ha unfolding c by (simp add: labelled_pieces_def abstract_pieces_def)
  have noabs: "chunks = number_from paper 0 ?body"
    if hn: "findall_desc ''abstract'' root_el = []
        \<or> (\<exists>first_abstract others. findall_desc ''abstract'' root_el = first_abstract # others
              \<and> normalised_text first_abstract = [])"
    using hn unfolding c by (auto simp add: labelled_pieces_def abstract_pieces_def)
  have unt: "section_title_of sec = ''Untitled Section''"
    if hs: "find_child ''title'' sec = None" for sec
    using hs by (simp add: section_title_of_def stripped_text_def)
  show "map c_chunk_index chunks = map int [0..<length chunks]
   \<and> chunks = number_from paper 0 ?pieces
   \<and> (\<forall>first_abstract others.
         findall_desc ''abstract'' root_el = first_abstract # others
         \<and> normalised_text first_abstract \<noteq> [] \<longrightarrow>
         take 1 chunks = [make_chunk paper ''Abstract'' (normalised_text first_abstract) 0]
         \<and> drop 1 chunks = number_from paper 1 ?body)
   \<and> (findall_desc ''abstract'' root_el = []
        \<or> (\<exists>first_abstract others. findall_desc ''abstract'' root_el = first_abstract # others
              \<and> normalised_text first_abstract = []) \<longrightarrow>
        chunks = number_from paper 0 ?body)
   \<and> extract_body_sections root_el =
       (case find_desc ''body'' root_el of
          None \<Rightarrow> []
        | Some body \<Rightarrow> map (\<lambda>sec. (section_title_of sec, section_content_of sec))
                         (filter (\<lambda>sec. section_parts sec \<noteq> []) (findall_desc ''sec'' body)))
   \<and> (\<forall>sec. find_child ''title'' sec = None \<longrightarrow> section_title_of sec = ''Untitled Section'')"
    using idx c abs noabs unt extract_body_sections_eq [of root_el] by blast
qed

theorem paper_chunks_layout_witness:
  "process_medical_paper 20 0 no_year [] ''a.xml'' (Parsed full_article False)
     = Some (extract_paper no_year [] ''a.xml'' full_article,
             build_paper_chunks 20 0 (extract_paper no_year [] ''a.xml'' full_article) full_article)
   \<and> (findall_desc ''abstract'' full_article
        = [el ''abstract'' [] [el ''p'' ''Short summary. Second sentence here.'' []]]
      \<and> normalised_text (el ''abstract'' [] [el ''p'' ''Short summary. Second sentence here.'' []])
          \<noteq> [])
   \<and> find_child ''title'' (el ''sec'' [] [el ''p'' ''Statins help.'' []]) = None
   \<and> map c_chunk_index
         (build_paper_chunks 20 0 (extract_paper no_year [] ''a.xml'' full_article) full_article)
       = map int [0..<length
           (build_paper_chunks 20 0 (extract_paper no_year [] ''a.xml'' full_article) full_article)]
   \<and> take 1
         (build_paper_chunks 20 0 (extract_paper no_year [] ''a.xml'' full_article) full_article)
       = [make_chunk (extract_paper no_year [] ''a.xml'' full_article) ''Abstract''
            ''Short summary. Second sentence here.'' 0]
   \<and> section_title_of (el ''sec'' [] [el ''p'' ''Statins help.'' []]) = ''Untitled Section''
   \<and> process_medical_paper 20 0 no_year [] ''a.xml'' (Parsed two_abstracts_article False)
     = Some (extract_paper no_year [] ''a.xml'' two_abstracts_article,
             build_paper_chunks 20 0 (extract_paper no_year [] ''a.xml'' two_abstracts_article)
               two_abstracts_article)
   \<and> (\<exists>first_abstract others.
         findall_desc ''abstract'' two_abstracts_article = first_abstract # others
         \<and> normalised_text first_abstract = [])
   \<and> build_paper_chunks 20 0 (extract_paper no_year [] ''a.xml'' two_abstracts_article)
         two_abstracts_article
       = number_from (extract_paper no_year [] ''a.xml'' two_abstracts_article) 0
           (body_pieces 20 0 two_abstracts_article)"
proof -
  let ?paper = "extract_paper no_year [] ''a.xml'' full_article"
  let ?chunks = "build_paper_chunks 20 0 ?paper full_article"
  let ?ab = "el ''abstract'' [] [el ''p'' ''Short summary. Second sentence here.'' []]"
  let ?paper2 = "extract_paper no_year [] ''a.xml'' two_abstracts_article"
  let ?chunks2 = "build_paper_chunks 20 0 ?paper2 two_abstracts_article"
  have h: "process_medical_paper 20 0 no_year [] ''a.xml'' (Parsed full_article False)
      = Some (?paper, ?chunks)"
    by code_simp
  have h2: "process_medical_paper 20 0 no_year [] ''a.xml'' (Parsed two_abstracts_article False)
      = Some (?paper2, ?chunks2)"
    by code_simp
  have f: "findall_desc ''abstract'' full_article = ?ab # []"
    by code_simp
  have n: "normalised_text ?ab = ''Short summary. Second sentence here.''"
    by code_simp
  have ne: "normalised_text ?ab \<noteq> []"
    unfolding n by simp
  have f2: "findall_desc ''abstract'' two_abstracts_article
      = el ''abstract'' [] [] # [el ''abstract'' [] [el ''p'' ''Late summary.'' []]]"
    by code_simp
  have n2: "normalised_text (el ''abstract'' [] []) = []"
    by code_simp
  have b2: "\<exists>first_abstract others.
         findall_desc ''abstract'' two_abstracts_article = first_abstract # others
         \<and> normalised_text first_abstract = []"
    using f2 n2 by blast
  have s: "find_child ''title'' (el ''sec'' [] [el ''p'' ''Statins help.'' []]) = None"
    by code_simp
  note t = paper_chunks_layout [of 20 0 no_year "[]" "''a.xml''" full_article False ?paper ?chunks,
      THEN mp, OF h]
  note u = paper_chunks_layout [of 20 0 no_year "[]" "''a.xml''" two_abstracts_article False
      ?paper2 ?chunks2, THEN mp, OF h2]
  note t1 = t [THEN conjunct1]
  note t3 = t [THEN conjunct2, THEN conjunct2, THEN conjunct1, THEN spec, THEN spec, THEN mp,
      OF conjI, OF f ne, THEN conjunct1, unfolded n]
  note t5 = t [THEN conjunct2, THEN conjunct2, THEN conjunct2, THEN conjunct2, THEN conjunct2,
      THEN spec, THEN mp, OF s]
  note u4 = u [THEN conjunct2, THEN conjunct2, THEN conjunct2, THEN conjunct1, THEN mp,
      OF disjI2, OF b2]
  have fa: "findall_desc ''abstract'' full_article = [?ab] \<and> normalised_text ?ab \<noteq> []"
    using f ne by simp
  show ?thesis
    by (intro conjI h fa [THEN conjunct1] fa [THEN conjunct2] s t1 t3 t5 h2 b2 u4)
qed

section \<open>Folder ingestion\<close>

lemma ingestible_titles_Cons:
  "set (ingestible_titles proc (f # files))
     = (case file_title proc f of None \<Rightarrow> {} | Some t \<Rightarrow> {t}) \<union> set (ingestible_titles proc files)"
  by (simp add: ingestible_titles_def List.map_filter_simps split: option.splits)

lemma ingest_file_cases:
  "ingest_file proc dumps (s, ex, tp, tc) f =
     (case file_title proc f of
        None \<Rightarrow> (s, ex, tp, tc)
      | Some t \<Rightarrow>
          if t \<in> ex then (s, ex, tp, tc)
          else (case proc (f_name f) (f_parsed f) of
                  None \<Rightarrow> (s, ex, tp, tc)
                | Some (paper, chunks) \<Rightarrow>
                    (add_paper_content (add_paper_metadata dumps s paper) chunks,
                     insert t ex, tp + 1, tc + int (length chunks))))"
  by (auto simp: ingest_file_def file_title_def split: option.splits)

lemma fold_skip:
  "set (ingestible_titles proc files) \<subseteq> ex
   \<Longrightarrow> foldl (ingest_file proc dumps) (s, ex, tp, tc) files = (s, ex, tp, tc)"
proof (induction files)
  case Nil
  then show ?case by simp
next
  case (Cons f files)
  have 1: "ingest_file proc dumps (s, ex, tp, tc) f = (s, ex, tp, tc)"
    using Cons.prems unfolding ingestible_titles_Cons ingest_file_cases
    by (cases "file_title proc f") auto
  have 2: "set (ingestible_titles proc files) \<subseteq> ex"
    using Cons.prems unfolding ingestible_titles_Cons by simp
  show ?case using 1 Cons.IH [OF 2] by simp
qed

lemma catalog_add_content [simp]:
  "paper_catalog (add_paper_content s chunks) = paper_catalog s"
  by (simp add: add_paper_content_def)

lemma catalog_add_metadata:
  "\<exists>e. e_id e = p_title paper
       \<and> paper_catalog (add_paper_metadata dumps s paper) = paper_catalog s @ [e]"
  by (simp add: add_paper_metadata_def Let_def)

lemma file_title_proc:
  "file_title proc f = Some t \<Longrightarrow>
     \<exists>paper chunks. proc (f_name f) (f_parsed f) = Some (paper, chunks) \<and> p_title paper = t"
  by (auto simp: file_title_def split: if_splits option.splits)

lemma ingest_file_inv:
  assumes inv: "ex = set (map e_id (paper_catalog s))"
      and st: "ingest_file proc dumps (s, ex, tp, tc) f = (s', ex', tp', tc')"
  shows "ex' = set (map e_id (paper_catalog s'))
         \<and> ex \<subseteq> ex'
         \<and> (case file_title proc f of None \<Rightarrow> {} | Some t \<Rightarrow> {t}) \<subseteq> ex'
         \<and> (\<forall>t\<in>ex. filter (\<lambda>e. e_id e = t) (paper_catalog s')
                      = filter (\<lambda>e. e_id e = t) (paper_catalog s))"
proof (cases "file_title proc f")
  case None
  then have "s' = s" "ex' = ex"
    using st unfolding ingest_file_cases by simp_all
  then show ?thesis using inv None by simp
next
  case (Some t)
  show ?thesis
  proof (cases "t \<in> ex")
    case True
    then have "s' = s" "ex' = ex"
      using st Some unfolding ingest_file_cases by simp_all
    then show ?thesis using inv Some True by simp
  next
    case False
    obtain paper chunks where p: "proc (f_name f) (f_parsed f) = Some (paper, chunks)"
        "p_title paper = t"
      using file_title_proc [OF Some] by blast
    have r: "s' = add_paper_content (add_paper_metadata dumps s paper) chunks" "ex' = insert t ex"
      using st Some False p unfolding ingest_file_cases by simp_all
    obtain e where e: "e_id e = t" "paper_catalog s' = paper_catalog s @ [e]"
      using catalog_add_metadata [of paper dumps s] p r by auto
    show ?thesis
      using inv Some False r(2) e by auto
  qed
qed

lemma fold_inv:
  assumes "ex = set (map e_id (paper_catalog s))"
      and "foldl (ingest_file proc dumps) (s, ex, tp, tc) files = (s', ex', tp', tc')"
  shows "ex' = set (map e_id (paper_catalog s'))
         \<and> ex \<subseteq> ex'
         \<and> set (ingestible_titles proc files) \<subseteq> ex'
         \<and> (\<forall>t\<in>ex. filter (\<lambda>e. e_id e = t) (paper_catalog s')
                      = filter (\<lambda>e. e_id e = t) (paper_catalog s))"
  using assms
proof (induction files arbitrary: s ex tp tc)
  case Nil
  have "s' = s" "ex' = ex" using Nil.prems(2) by simp_all
  then show ?case using Nil.prems(1) by (simp add: ingestible_titles_def List.map_filter_simps)
next
  case (Cons f files)
  obtain s1 ex1 tp1 tc1 where st: "ingest_file proc dumps (s, ex, tp, tc) f = (s1, ex1, tp1, tc1)"
    by (cases "ingest_file proc dumps (s, ex, tp, tc) f") auto
  note a = ingest_file_inv [OF Cons.prems(1) st]
  have f: "foldl (ingest_file proc dumps) (s1, ex1, tp1, tc1) files = (s', ex', tp', tc')"
    using Cons.prems(2) st by simp
  note b = Cons.IH [OF a [THEN conjunct1] f]
  have 1: "ex' = set (map e_id (paper_catalog s'))" using b by blast
  have 2: "ex \<subseteq> ex'" using a b by blast
  have 3: "set (ingestible_titles proc (f # files)) \<subseteq> ex'"
    unfolding ingestible_titles_Cons using a b by blast
  have 4: "\<forall>t\<in>ex. filter (\<lambda>e. e_id e = t) (paper_catalog s')
                      = filter (\<lambda>e. e_id e = t) (paper_catalog s)"
  proof
    fix t assume t: "t \<in> ex"
    then have "t \<in> ex1" using a by blast
    then have "filter (\<lambda>e. e_id e = t) (paper_catalog s')
        = filter (\<lambda>e. e_id e = t) (paper_catalog s1)" using b by blast
    also have "\<dots> = filter (\<lambda>e. e_id e = t) (paper_catalog s)" using a t by blast
    finally show "filter (\<lambda>e. e_id e = t) (paper_catalog s')
        = filter (\<lambda>e. e_id e = t) (paper_catalog s)" .
  qed
  show ?case using 1 2 3 4 by blast
qed

lemma add_papers_from_folder_skip:
  assumes "set (ingestible_titles proc files) \<subseteq> set (get_existing_paper_titles store)"
  shows "add_papers_from_folder proc dumps store (Some files) False = (store, 0, 0)"
  using fold_skip [OF assms, of dumps store 0 0]
  by (simp add: add_papers_from_folder_def Let_def)

lemma add_papers_from_folder_inv:
  assumes "add_papers_from_folder proc dumps store (Some files) clear = (store', tp, tc)"
  shows "set (ingestible_titles proc files) \<subseteq> set (get_existing_paper_titles store')
         \<and> (\<not> clear \<longrightarrow> (\<forall>t\<in>set (get_existing_paper_titles store).
                 filter (\<lambda>e. e_id e = t) (paper_catalog store')
                   = filter (\<lambda>e. e_id e = t) (paper_catalog store)))"
proof -
  let ?s0 = "if clear then clear_all_data store else store"
  let ?ex0 = "set (get_existing_paper_titles ?s0)"
  obtain s1 ex1 tp1 tc1 where f: "foldl (ingest_file proc dumps) (?s0, ?ex0, 0, 0) files = (s1, ex1, tp1, tc1)"
    by (cases "foldl (ingest_file proc dumps) (?s0, ?ex0, 0, 0) files") auto
  have s: "store' = s1"
    using assms f by (simp add: add_papers_from_folder_def Let_def)
  have inv0: "?ex0 = set (map e_id (paper_catalog ?s0))"
    by (simp add: get_existing_paper_titles_def)
  note i = fold_inv [OF inv0 f]
  show ?thesis
    using i unfolding s by (auto simp: get_existing_paper_titles_def)
qed

text \<open>
  C9.  With \<open>clear_existing = False\<close>: a file whose title is already known is skipped, the
  store, the known titles and the counters staying as they are; whatever else the folder
  holds, the catalog entries under a title that was present before are the same afterwards;
  when every title of the folder is present, the whole store is unchanged and nothing is
  counted; and ingesting a folder a second time leaves the store, and so the document
  count, exactly as the first ingestion left it.
\<close>

theorem reingestion_skips_known_titles:
  "(file_title proc f = Some title \<and> title \<in> existing \<longrightarrow>
      ingest_file proc dumps (store, existing, total_papers, total_chunks) f
        = (store, existing, total_papers, total_chunks))
   \<and> (\<forall>t\<in>set (get_existing_paper_titles store).
      filter (\<lambda>e. e_id e = t)
        (paper_catalog (fst (add_papers_from_folder proc dumps store (Some files) False)))
      = filter (\<lambda>e. e_id e = t) (paper_catalog store))
   \<and> (set (ingestible_titles proc files) \<subseteq> set (get_existing_paper_titles store) \<longrightarrow>
        add_papers_from_folder proc dumps store (Some files) False = (store, 0, 0))
   \<and> (let first = fst (add_papers_from_folder proc dumps store folder clear_existing);
            second = add_papers_from_folder proc dumps first folder False
        in second = (first, 0, 0) \<and> get_paper_count (fst second) = get_paper_count first)"
proof -
  obtain s1 tp1 tc1 where r: "add_papers_from_folder proc dumps store (Some files) False = (s1, tp1, tc1)"
    by (cases "add_papers_from_folder proc dumps store (Some files) False") auto
  have a: "\<forall>t\<in>set (get_existing_paper_titles store).
      filter (\<lambda>e. e_id e = t)
        (paper_catalog (fst (add_papers_from_folder proc dumps store (Some files) False)))
      = filter (\<lambda>e. e_id e = t) (paper_catalog store)"
    using add_papers_from_folder_inv [OF r] unfolding r by simp
  have b: "set (ingestible_titles proc files) \<subseteq> set (get_existing_paper_titles store) \<longrightarrow>
        add_papers_from_folder proc dumps store (Some files) False = (store, 0, 0)"
    using add_papers_from_folder_skip by blast
  have c: "add_papers_from_folder proc dumps
             (fst (add_papers_from_folder proc dumps store folder clear_existing)) folder False
           = (fst (add_papers_from_folder proc dumps store folder clear_existing), 0, 0)"
  proof (cases folder)
    case None
    then show ?thesis by (simp add: add_papers_from_folder_def Let_def)
  next
    case (Some fs)
    obtain s2 tp2 tc2 where r2: "add_papers_from_folder proc dumps store (Some fs) clear_existing = (s2, tp2, tc2)"
      by (cases "add_papers_from_folder proc dumps store (Some fs) clear_existing") auto
    have "set (ingestible_titles proc fs) \<subseteq> set (get_existing_paper_titles s2)"
      using add_papers_from_folder_inv [OF r2] by blast
    from add_papers_from_folder_skip [OF this] show ?thesis
      unfolding Some r2 by simp
  qed
  have d: "file_title proc f = Some title \<and> title \<in> existing \<longrightarrow>
      ingest_file proc dumps (store, existing, total_papers, total_chunks) f
        = (store, existing, total_papers, total_chunks)"
    unfolding ingest_file_cases by simp
  show ?thesis
    using a b c d by (simp add: Let_def)
qed

theorem reingestion_skips_known_titles_witness:
  "file_title demo_processor demo_file = Some ''Statins in adults''
   \<and> ''Statins in adults'' \<in> set (get_existing_paper_titles loaded_store)
   \<and> ingest_file demo_processor plain_dumps
         (loaded_store, set (get_existing_paper_titles loaded_store), 0, 0) demo_file
       = (loaded_store, set (get_existing_paper_titles loaded_store), 0, 0)
   \<and> filter (\<lambda>e. e_id e = ''Statins in adults'')
         (paper_catalog (fst (add_papers_from_folder demo_processor plain_dumps loaded_store
                                (Some demo_folder) False)))
       = filter (\<lambda>e. e_id e = ''Statins in adults'') (paper_catalog loaded_store)
   \<and> set (ingestible_titles demo_processor demo_folder)
         \<subseteq> set (get_existing_paper_titles loaded_store)
   \<and> add_papers_from_folder demo_processor plain_dumps loaded_store (Some demo_folder) False
       = (loaded_store, 0, 0)
   \<and> get_paper_count loaded_store = 1"
proof -
  have h1: "file_title demo_processor demo_file = Some ''Statins in adults''"
    by code_simp
  have h2: "''Statins in adults'' \<in> set (get_existing_paper_titles loaded_store)"
    by code_simp
  have h3: "set (ingestible_titles demo_processor demo_folder)
         \<subseteq> set (get_existing_paper_titles loaded_store)"
    by code_simp
  have n: "get_paper_count loaded_store = 1"
    by code_simp
  note t = reingestion_skips_known_titles [of demo_processor demo_file "''Statins in adults''"
      "set (get_existing_paper_titles loaded_store)" plain_dumps loaded_store 0 0 demo_folder
      "Some demo_folder" False]
  note t1 = t [THEN conjunct1, THEN mp, OF conjI, OF h1 h2]
  note t2 = t [THEN conjunct2, THEN conjunct1, THEN bspec, OF h2]
  note t3 = t [THEN conjunct2, THEN conjunct2, THEN conjunct1, THEN mp, OF h3]
  show ?thesis
    by (intro conjI h1 h2 h3 n t1 t2 t3)
qed

section \<open>The answer orchestrator\<close>










end
